theory Spec2Isabelle
  imports Complex_Main "HOL-Library.AList"
begin

section \<open>Signaling server (apps/signaling/src/index.ts)\<close>

subsection \<open>Data model\<close>

text \<open>\<^verbatim>\<open>type Role = "agent" | "controller" | "viewer"\<close>; the source role of the
  specification is \<open>Agent\<close>.\<close>

datatype Role = Agent | Controller | Viewer

text \<open>A \<^verbatim>\<open>WebSocket\<close> object is referred to by a handle; the objects themselves live in
  a store, since a \<^verbatim>\<open>Peer\<close> and the connection handler share the same socket.\<close>

type_synonym ConnId = nat

record TokenPayload =
  tp_sessionId :: string
  tp_role :: Role

record Peer =
  peerId :: string
  role :: Role
  ws :: ConnId

text \<open>\<^verbatim>\<open>peers: Map<string, Peer>\<close> is an association list in insertion order: a JavaScript
  \<^verbatim>\<open>Map\<close> iterates in insertion order, \<^verbatim>\<open>set\<close> on an existing key keeps its position
  (\<open>AList.update\<close>), \<^verbatim>\<open>delete\<close> removes the key (\<open>AList.delete\<close>).\<close>

record Session =
  sessId :: string
  emulatorId :: string
  createdAt :: int
  expiresAt :: int
  lockOwnerPeerId :: "string option"
  peers :: "(string \<times> Peer) list"

datatype SignalKind = Offer | Answer | Ice

datatype LockAction = Request | Release

record FrameData =
  mime :: string
  width :: "int option"
  height :: "int option"
  dataBase64 :: string
  ts :: int

text \<open>A decoded JSON message, by its \<^verbatim>\<open>t\<close> tag; \<open>z.unknown()\<close> payloads are opaque strings.
  \<open>MOther\<close> is any JSON value that has none of the shapes below.\<close>

datatype Message =
    MHello string
  | MSignal SignalKind string
  | MFrame FrameData
  | MControl string
  | MLock LockAction
  | MOther

text \<open>The raw message: \<^verbatim>\<open>JSON.parse\<close> either throws or yields a value.\<close>

datatype RawMessage = InvalidJson | Json Message

text \<open>What the server sends.\<close>

datatype Payload =
    PError string
  | PHelloAck string Role string string
  | PSessionState string "string option" "(string \<times> Role) list"
  | PLockResult bool "string option"
  | PSignal SignalKind string
  | PFrame FrameData
  | PControl string

datatype ReadyState = CONNECTING | OPEN | CLOSING | CLOSED

text \<open>The part of a \<^verbatim>\<open>WebSocket\<close> the server touches: \<open>sent\<close> is what \<^verbatim>\<open>ws.send\<close> was
  given, in order; \<open>closeCall\<close> the code and reason of the \<^verbatim>\<open>ws.close\<close> call that started
  the closing handshake; \<open>bufferedAmount\<close> the bytes queued and not yet written, which
  the network layer moves.\<close>

record Socket =
  readyState :: ReadyState
  sent :: "Payload list"
  closeCall :: "(nat \<times> string) option"
  bufferedAmount :: nat

text \<open>The two variables each connection handler closes over:
  \<^verbatim>\<open>let peer: Peer | null = null; let sessionId = "";\<close>\<close>

record Conn =
  peer :: "Peer option"
  sessionId :: string

record State =
  sessions :: "string \<rightharpoonup> Session"
  sockets :: "ConnId \<Rightarrow> Socket"
  conns :: "ConnId \<Rightarrow> Conn"

subsection \<open>Schemas\<close>

text \<open>\<^verbatim>\<open>helloSchema\<close>: \<^verbatim>\<open>token: z.string().min(1)\<close>.\<close>

fun helloSchema :: "Message \<Rightarrow> string option" where
  "helloSchema (MHello token) = (if length token \<ge> 1 then Some token else None)"
| "helloSchema _ = None"

fun signalSchema :: "Message \<Rightarrow> (SignalKind \<times> string) option" where
  "signalSchema (MSignal k payload) = Some (k, payload)"
| "signalSchema _ = None"

definition positive_opt :: "int option \<Rightarrow> bool" where
  "positive_opt v = (case v of None \<Rightarrow> True | Some n \<Rightarrow> n > 0)"

text \<open>\<^verbatim>\<open>frameSchema\<close>: \<^verbatim>\<open>width\<close> and \<^verbatim>\<open>height\<close> are \<^verbatim>\<open>z.number().int().positive().optional()\<close>.\<close>

fun frameSchema :: "Message \<Rightarrow> FrameData option" where
  "frameSchema (MFrame f) =
     (if positive_opt (width f) \<and> positive_opt (height f) then Some f else None)"
| "frameSchema _ = None"

fun controlSchema :: "Message \<Rightarrow> string option" where
  "controlSchema (MControl event) = Some event"
| "controlSchema _ = None"

fun lockSchema :: "Message \<Rightarrow> LockAction option" where
  "lockSchema (MLock action) = Some action"
| "lockSchema _ = None"

subsection \<open>Sockets\<close>

text \<open>\<^verbatim>\<open>if (ws.readyState === ws.OPEN) ws.send(JSON.stringify(payload))\<close>\<close>

definition sendJson :: "ConnId \<Rightarrow> Payload \<Rightarrow> (ConnId \<Rightarrow> Socket) \<Rightarrow> (ConnId \<Rightarrow> Socket)" where
  "sendJson w payload \<sigma> =
     (if readyState (\<sigma> w) = OPEN
      then \<sigma>(w := (\<sigma> w)\<lparr>sent := sent (\<sigma> w) @ [payload]\<rparr>)
      else \<sigma>)"

text \<open>\<^verbatim>\<open>ws.close(code, reason)\<close> starts the closing handshake of an open socket and does
  nothing on a socket that is closing or closed.\<close>

definition wsClose :: "ConnId \<Rightarrow> nat \<Rightarrow> string \<Rightarrow> (ConnId \<Rightarrow> Socket) \<Rightarrow> (ConnId \<Rightarrow> Socket)" where
  "wsClose w code reason \<sigma> =
     (if readyState (\<sigma> w) = OPEN
      then \<sigma>(w := (\<sigma> w)\<lparr>readyState := CLOSING, closeCall := Some (code, reason)\<rparr>)
      else \<sigma>)"

text \<open>\<^verbatim>\<open>for (const peer of ...) sendJson(peer.ws, payload)\<close>\<close>

fun sendAll :: "Peer list \<Rightarrow> Payload \<Rightarrow> (ConnId \<Rightarrow> Socket) \<Rightarrow> (ConnId \<Rightarrow> Socket)" where
  "sendAll [] payload \<sigma> = \<sigma>"
| "sendAll (p # ps) payload \<sigma> = sendAll ps payload (sendJson (ws p) payload \<sigma>)"

definition broadcastSessionState :: "Session \<Rightarrow> (ConnId \<Rightarrow> Socket) \<Rightarrow> (ConnId \<Rightarrow> Socket)" where
  "broadcastSessionState session \<sigma> =
     (let ps = map snd (peers session);
          lockOwner = lockOwnerPeerId session
      in sendAll ps
           (PSessionState (sessId session) lockOwner (map (\<lambda>p. (peerId p, role p)) ps)) \<sigma>)"

fun expireAll :: "Peer list \<Rightarrow> (ConnId \<Rightarrow> Socket) \<Rightarrow> (ConnId \<Rightarrow> Socket)" where
  "expireAll [] \<sigma> = \<sigma>"
| "expireAll (p # ps) \<sigma> =
     expireAll ps
       (wsClose (ws p) 4001 ''Session expired'' (sendJson (ws p) (PError ''Session expired'') \<sigma>))"

text \<open>\<^verbatim>\<open>findSession\<close>, with \<^verbatim>\<open>Date.now()\<close> as the argument \<open>now\<close>: an expired session is
  removed on access, after every peer of it was notified and closed.\<close>

definition findSession :: "string \<Rightarrow> int \<Rightarrow> State \<Rightarrow> Session option \<times> State" where
  "findSession sid now st =
     (case sessions st sid of
        None \<Rightarrow> (None, st)
      | Some session \<Rightarrow>
          if now > expiresAt session
          then (None, st\<lparr>sessions := (sessions st)(sid := None),
                         sockets := expireAll (map snd (peers session)) (sockets st)\<rparr>)
          else (Some session, st))"

definition relayByRole :: "Session \<Rightarrow> Role \<Rightarrow> Payload \<Rightarrow> (ConnId \<Rightarrow> Socket) \<Rightarrow> (ConnId \<Rightarrow> Socket)" where
  "relayByRole session r payload \<sigma> =
     sendAll (filter (\<lambda>p. role p = r) (map snd (peers session))) payload \<sigma>"

text \<open>\<^verbatim>\<open>!session.lockOwnerPeerId\<close>: \<^verbatim>\<open>null\<close> and the empty string are falsy.\<close>

definition falsy :: "string option \<Rightarrow> bool" where
  "falsy v = (case v of None \<Rightarrow> True | Some s \<Rightarrow> s = [])"

subsection \<open>The message handler\<close>

text \<open>The branch \<^verbatim>\<open>if (!peer)\<close>. \<open>verify\<close> is \<^verbatim>\<open>jwt.verify\<close> (\<open>None\<close> when it throws),
  \<open>uuid\<close> the value \<^verbatim>\<open>randomUUID()\<close> returns when it is called.\<close>

definition handshake ::
  "(string \<Rightarrow> TokenPayload option) \<Rightarrow> ConnId \<Rightarrow> Message \<Rightarrow> int \<Rightarrow> string \<Rightarrow> State \<Rightarrow> State" where
  "handshake verify c message now uuid st =
     (case helloSchema message of
        None \<Rightarrow>
          st\<lparr>sockets := wsClose c 4000 ''Auth required''
                (sendJson c (PError ''First message must be hello'') (sockets st))\<rparr>
      | Some token \<Rightarrow>
          (case verify token of
             None \<Rightarrow>
               st\<lparr>sockets := wsClose c 4003 ''Invalid token''
                     (sendJson c (PError ''Invalid token'') (sockets st))\<rparr>
           | Some decoded \<Rightarrow>
               (case findSession (tp_sessionId decoded) now st of
                  (None, st1) \<Rightarrow>
                    st1\<lparr>sockets := wsClose c 4004 ''Session not found''
                          (sendJson c (PError ''Session not found'') (sockets st1))\<rparr>
                | (Some session, st1) \<Rightarrow>
                    (let p = \<lparr>peerId = uuid, role = tp_role decoded, ws = c\<rparr>;
                         session1 = session\<lparr>peers := AList.update (peerId p) p (peers session)\<rparr>;
                         session2 =
                           (if falsy (lockOwnerPeerId session1) \<and> role p = Controller
                            then session1\<lparr>lockOwnerPeerId := Some (peerId p)\<rparr>
                            else session1);
                         \<sigma>1 = sendJson c
                                (PHelloAck (peerId p) (role p) (tp_sessionId decoded)
                                   (emulatorId session2))
                                (sockets st1)
                     in st1\<lparr>sessions := (sessions st1)(tp_sessionId decoded \<mapsto> session2),
                            sockets := broadcastSessionState session2 \<sigma>1,
                            conns := (conns st1)
                              (c := \<lparr>peer = Some p, sessionId = tp_sessionId decoded\<rparr>)\<rparr>))))"

text \<open>The handling of a \<^verbatim>\<open>lock\<close> message: the new session and the sockets after the
  \<^verbatim>\<open>lock_result\<close> reply, before the broadcast.\<close>

definition lockRequest :: "ConnId \<Rightarrow> Peer \<Rightarrow> Session \<Rightarrow> (ConnId \<Rightarrow> Socket)
    \<Rightarrow> Session \<times> (ConnId \<Rightarrow> Socket)" where
  "lockRequest c p session \<sigma> =
     (if falsy (lockOwnerPeerId session) \<or> lockOwnerPeerId session = Some (peerId p)
      then (session\<lparr>lockOwnerPeerId := Some (peerId p)\<rparr>,
            sendJson c (PLockResult True (Some (peerId p))) \<sigma>)
      else (session, sendJson c (PLockResult False (lockOwnerPeerId session)) \<sigma>))"

definition lockMessage :: "ConnId \<Rightarrow> Peer \<Rightarrow> LockAction \<Rightarrow> Session \<Rightarrow> (ConnId \<Rightarrow> Socket)
    \<Rightarrow> Session \<times> (ConnId \<Rightarrow> Socket)" where
  "lockMessage c p action session \<sigma> =
     (let (session1, \<sigma>1) =
            (if action = Request then lockRequest c p session \<sigma> else (session, \<sigma>));
          session2 =
            (if action = Release \<and> lockOwnerPeerId session1 = Some (peerId p)
             then session1\<lparr>lockOwnerPeerId := None\<rparr>
             else session1)
      in (session2, broadcastSessionState session2 \<sigma>1))"

text \<open>The rest of the handler, for a connection whose \<^verbatim>\<open>peer\<close> is set. The session
  object is mutated in place in the source; the model writes it back under the key it
  was looked up with.\<close>

definition route :: "ConnId \<Rightarrow> Peer \<Rightarrow> Message \<Rightarrow> int \<Rightarrow> State \<Rightarrow> State" where
  "route c p message now st =
     (case findSession (sessionId (conns st c)) now st of
        (None, st1) \<Rightarrow> st1\<lparr>sockets := wsClose c 4004 ''Session not found'' (sockets st1)\<rparr>
      | (Some session, st1) \<Rightarrow>
          (case signalSchema message of
             Some (k, payload) \<Rightarrow>
               (if role p = Agent
                then st1\<lparr>sockets := relayByRole session Viewer (PSignal k payload)
                             (relayByRole session Controller (PSignal k payload) (sockets st1))\<rparr>
                else st1\<lparr>sockets := relayByRole session Agent (PSignal k payload) (sockets st1)\<rparr>)
           | None \<Rightarrow>
               (case (frameSchema message, role p = Agent) of
                  (Some frame, True) \<Rightarrow>
                    st1\<lparr>sockets := relayByRole session Viewer (PFrame frame)
                          (relayByRole session Controller (PFrame frame) (sockets st1))\<rparr>
                | _ \<Rightarrow>
                    (case (controlSchema message, role p \<noteq> Agent) of
                       (Some event, True) \<Rightarrow>
                         (if lockOwnerPeerId session \<noteq> Some (peerId p)
                          then st1\<lparr>sockets := sendJson c (PError ''Not lock owner'') (sockets st1)\<rparr>
                          else st1\<lparr>sockets := relayByRole session Agent (PControl event) (sockets st1)\<rparr>)
                     | _ \<Rightarrow>
                         (case lockSchema message of
                            Some action \<Rightarrow>
                              (let (session2, \<sigma>2) = lockMessage c p action session (sockets st1)
                               in st1\<lparr>sessions := (sessions st1)(sessionId (conns st c) \<mapsto> session2),
                                      sockets := \<sigma>2\<rparr>)
                          | None \<Rightarrow>
                              st1\<lparr>sockets := sendJson c (PError ''Unknown message'') (sockets st1)\<rparr>)))))"

text \<open>\<^verbatim>\<open>ws.on("message", ...)\<close>\<close>

definition on_message ::
  "(string \<Rightarrow> TokenPayload option) \<Rightarrow> ConnId \<Rightarrow> RawMessage \<Rightarrow> int \<Rightarrow> string \<Rightarrow> State \<Rightarrow> State" where
  "on_message verify c rawMessage now uuid st =
     (case rawMessage of
        InvalidJson \<Rightarrow> st\<lparr>sockets := sendJson c (PError ''Invalid JSON message'') (sockets st)\<rparr>
      | Json message \<Rightarrow>
          (case peer (conns st c) of
             None \<Rightarrow> handshake verify c message now uuid st
           | Some p \<Rightarrow> route c p message now st))"

subsection \<open>The close handler\<close>

text \<open>\<^verbatim>\<open>[...session.peers.values()].find((p) => p.role === "controller")\<close> and the
  reassignment of the lock around it.\<close>

definition reassignLock :: "Peer \<Rightarrow> Session \<Rightarrow> Session" where
  "reassignLock p session =
     (if lockOwnerPeerId session = Some (peerId p)
      then (case find (\<lambda>q. role q = Controller) (map snd (peers session)) of
              Some nextController \<Rightarrow> session\<lparr>lockOwnerPeerId := Some (peerId nextController)\<rparr>
            | None \<Rightarrow> session\<lparr>lockOwnerPeerId := None\<rparr>)
      else session)"

text \<open>\<^verbatim>\<open>ws.on("close", ...)\<close>\<close>

definition on_close :: "ConnId \<Rightarrow> State \<Rightarrow> State" where
  "on_close c st =
     (case peer (conns st c) of
        None \<Rightarrow> st
      | Some p \<Rightarrow>
          if sessionId (conns st c) = [] then st
          else (case sessions st (sessionId (conns st c)) of
                  None \<Rightarrow> st
                | Some session \<Rightarrow>
                    (let session1 = session\<lparr>peers := AList.delete (peerId p) (peers session)\<rparr>;
                         session2 = reassignLock p session1
                     in if length (peers session2) = 0
                        then st\<lparr>sessions := (sessions st)(sessionId (conns st c) := None)\<rparr>
                        else st\<lparr>sessions := (sessions st)(sessionId (conns st c) \<mapsto> session2),
                                sockets := broadcastSessionState session2 (sockets st)\<rparr>)))"

subsection \<open>What a handler sent\<close>

text \<open>The \<^verbatim>\<open>session_state\<close> envelope \<^verbatim>\<open>broadcastSessionState\<close> builds for a session.\<close>

definition sessionStatePayload :: "Session \<Rightarrow> Payload" where
  "sessionStatePayload s =
     PSessionState (sessId s) (lockOwnerPeerId s)
       (map (\<lambda>p. (peerId p, role p)) (map snd (peers s)))"

text \<open>The number of peers of a list whose socket is \<open>w\<close>.\<close>

definition copies :: "ConnId \<Rightarrow> Peer list \<Rightarrow> nat" where
  "copies w ps = length (filter (\<lambda>p. ws p = w) ps)"

subsection \<open>The server as a transition system\<close>

text \<open>\<^verbatim>\<open>app.post("/api/dev/sessions")\<close>, after the body was validated: \<open>sid\<close> is the value of
  \<^verbatim>\<open>randomUUID()\<close>, \<open>now\<close> of \<^verbatim>\<open>Date.now()\<close>.\<close>

definition createSession :: "string \<Rightarrow> string \<Rightarrow> int \<Rightarrow> int \<Rightarrow> State \<Rightarrow> State" where
  "createSession sid emu now expiresInSec st =
     st\<lparr>sessions := (sessions st)(sid \<mapsto>
          \<lparr>sessId = sid, emulatorId = emu, createdAt = now,
           expiresAt = now + expiresInSec * 1000, lockOwnerPeerId = None, peers = []\<rparr>)\<rparr>"

text \<open>\<^verbatim>\<open>wss.on("connection", (ws) => { let peer = null; let sessionId = ""; ... })\<close>: the
  library hands over an open socket.\<close>

definition on_connection :: "ConnId \<Rightarrow> State \<Rightarrow> State" where
  "on_connection c st =
     st\<lparr>sockets := (sockets st)
            (c := \<lparr>readyState = OPEN, sent = [], closeCall = None, bufferedAmount = 0\<rparr>),
        conns := (conns st)(c := \<lparr>peer = None, sessionId = []\<rparr>)\<rparr>"

text \<open>The library sets \<^verbatim>\<open>readyState\<close> to \<^verbatim>\<open>CLOSED\<close> and then emits \<^verbatim>\<open>"close"\<close>.\<close>

definition close_event :: "ConnId \<Rightarrow> State \<Rightarrow> State" where
  "close_event c st =
     on_close c (st\<lparr>sockets := (sockets st)(c := (sockets st c)\<lparr>readyState := CLOSED\<rparr>)\<rparr>)"

definition init_state :: State where
  "init_state =
     \<lparr>sessions = Map.empty,
      sockets = (\<lambda>c. \<lparr>readyState = CONNECTING, sent = [], closeCall = None, bufferedAmount = 0\<rparr>),
      conns = (\<lambda>c. \<lparr>peer = None, sessionId = []\<rparr>)\<rparr>"

datatype Event =
    CreateSession string string int int
  | Connection ConnId
  | MessageEv "string \<Rightarrow> TokenPayload option" ConnId RawMessage int string
  | CloseEv ConnId

fun step :: "Event \<Rightarrow> State \<Rightarrow> State" where
  "step (CreateSession sid emu now expiresInSec) st = createSession sid emu now expiresInSec st"
| "step (Connection c) st = on_connection c st"
| "step (MessageEv verify c rawMessage now uuid) st = on_message verify c rawMessage now uuid st"
| "step (CloseEv c) st = close_event c st"

text \<open>What the environment guarantees of an event: \<^verbatim>\<open>randomUUID()\<close> returns a non-empty
  string that is in use nowhere; a socket connects once, receives messages only while it
  is not closed, and emits \<^verbatim>\<open>"close"\<close> once.\<close>

definition fresh_uuid :: "State \<Rightarrow> string \<Rightarrow> bool" where
  "fresh_uuid st uuid \<longleftrightarrow>
     uuid \<noteq> [] \<and>
     (\<forall>c p. peer (conns st c) = Some p \<longrightarrow> peerId p \<noteq> uuid) \<and>
     (\<forall>sid s. sessions st sid = Some s \<longrightarrow> uuid \<notin> fst ` set (peers s))"

fun env_ok :: "State \<Rightarrow> Event \<Rightarrow> bool" where
  "env_ok st (CreateSession sid emu now expiresInSec) \<longleftrightarrow>
     sid \<noteq> [] \<and> sessions st sid = None \<and> (\<forall>c. sessionId (conns st c) \<noteq> sid)"
| "env_ok st (Connection c) \<longleftrightarrow> readyState (sockets st c) = CONNECTING"
| "env_ok st (MessageEv verify c rawMessage now uuid) \<longleftrightarrow>
     (readyState (sockets st c) = OPEN \<or> readyState (sockets st c) = CLOSING) \<and> fresh_uuid st uuid"
| "env_ok st (CloseEv c) \<longleftrightarrow>
     readyState (sockets st c) = OPEN \<or> readyState (sockets st c) = CLOSING"

text \<open>The states the registry reaches from the start of the process by events that
  satisfy \<open>allowed\<close>.\<close>

inductive reach :: "(State \<Rightarrow> Event \<Rightarrow> bool) \<Rightarrow> State \<Rightarrow> bool"
  for allowed :: "State \<Rightarrow> Event \<Rightarrow> bool" where
  reach_init: "reach allowed init_state"
| reach_step: "reach allowed st \<Longrightarrow> env_ok st ev \<Longrightarrow> allowed st ev \<Longrightarrow> reach allowed (step ev st)"

definition any_event :: "State \<Rightarrow> Event \<Rightarrow> bool" where
  "any_event st ev = True"

definition reachable :: "State \<Rightarrow> bool" where
  "reachable = reach any_event"

text \<open>Events other than a lock request sent by a peer of role \<open>Agent\<close>.\<close>

fun no_agent_lock_request :: "State \<Rightarrow> Event \<Rightarrow> bool" where
  "no_agent_lock_request st (MessageEv verify c (Json (MLock Request)) now uuid) =
     (case peer (conns st c) of None \<Rightarrow> True | Some p \<Rightarrow> role p \<noteq> Agent)"
| "no_agent_lock_request st ev = True"

subsection \<open>A session with an agent and two controllers\<close>

definition verifyS1 :: "string \<Rightarrow> TokenPayload option" where
  "verifyS1 token =
     (if token = ''agent-token'' then Some \<lparr>tp_sessionId = ''S1'', tp_role = Agent\<rparr>
      else if token = ''controller-token'' then Some \<lparr>tp_sessionId = ''S1'', tp_role = Controller\<rparr>
      else if token = ''viewer-token'' then Some \<lparr>tp_sessionId = ''S1'', tp_role = Viewer\<rparr>
      else if token = ''stale-token'' then Some \<lparr>tp_sessionId = ''S0'', tp_role = Viewer\<rparr>
      else None)"

definition trace_A :: "Event list" where
  "trace_A =
     [CreateSession ''S1'' ''emulator-5554'' 0 3600,
      Connection 10,
      MessageEv verifyS1 10 (Json (MHello ''agent-token'')) 10 ''A'']"

definition trace_AB :: "Event list" where
  "trace_AB = trace_A @
     [Connection 11,
      MessageEv verifyS1 11 (Json (MHello ''controller-token'')) 20 ''B1'',
      Connection 12,
      MessageEv verifyS1 12 (Json (MHello ''controller-token'')) 30 ''B2'']"

definition run :: "Event list \<Rightarrow> State \<Rightarrow> State" where
  "run evs st = foldl (\<lambda>s ev. step ev s) st evs"

definition state_A :: State where
  "state_A = run trace_A init_state"

definition state_AB :: State where
  "state_AB = run trace_AB init_state"

text \<open>The session of \<open>state_AB\<close>: \<open>B1\<close>, the first controller, holds the lock.\<close>

definition session_AB :: Session where
  "session_AB =
     \<lparr>sessId = ''S1'', emulatorId = ''emulator-5554'', createdAt = 0,
      expiresAt = 3600000, lockOwnerPeerId = Some ''B1'',
      peers = [(''A'', \<lparr>peerId = ''A'', role = Agent, ws = 10\<rparr>),
               (''B1'', \<lparr>peerId = ''B1'', role = Controller, ws = 11\<rparr>),
               (''B2'', \<lparr>peerId = ''B2'', role = Controller, ws = 12\<rparr>)]\<rparr>"

text \<open>The session of \<open>state_A\<close>: the agent alone.\<close>

definition session_A :: Session where
  "session_A =
     \<lparr>sessId = ''S1'', emulatorId = ''emulator-5554'', createdAt = 0,
      expiresAt = 3600000, lockOwnerPeerId = None,
      peers = [(''A'', \<lparr>peerId = ''A'', role = Agent, ws = 10\<rparr>)]\<rparr>"

text \<open>The network layer leaves \<open>n\<close> bytes of socket \<open>c\<close> unsent.\<close>

definition buffered :: "ConnId \<Rightarrow> nat \<Rightarrow> State \<Rightarrow> State" where
  "buffered c n st = st\<lparr>sockets := (sockets st)(c := (sockets st c)\<lparr>bufferedAmount := n\<rparr>)\<rparr>"

definition frame_png :: FrameData where
  "frame_png = \<lparr>mime = ''image/png'', width = Some 1080, height = Some 1920,
                dataBase64 = ''iVBORw0KGgo='', ts = 50\<rparr>"

text \<open>A further connection opens in \<open>state_AB\<close>.\<close>

definition state_new :: State where
  "state_new = on_connection 13 state_AB"

subsection \<open>Invariants of the registry\<close>

text \<open>A session is well formed: its peers have distinct keys, each the non-empty id of its
  peer, and the lock owner, if set, is one of them.\<close>

definition session_ok :: "Session \<Rightarrow> bool" where
  "session_ok s \<longleftrightarrow>
     distinct (map fst (peers s)) \<and>
     (\<forall>k q. (k, q) \<in> set (peers s) \<longrightarrow> peerId q = k \<and> k \<noteq> []) \<and>
     (\<forall>owner. lockOwnerPeerId s = Some owner \<longrightarrow> owner \<in> fst ` set (peers s))"

text \<open>The registry \<open>S\<close>, the connection variables \<open>C\<close> and the closed sockets agree: sessions
  are well formed, the peer of a connection that is not closed is in its session, and
  no two connections have peers of the same id.\<close>

definition registry_ok ::
  "(string \<rightharpoonup> Session) \<Rightarrow> (ConnId \<Rightarrow> Conn) \<Rightarrow> (ConnId \<Rightarrow> bool) \<Rightarrow> bool" where
  "registry_ok S C shut \<longleftrightarrow>
     (\<forall>sid s. S sid = Some s \<longrightarrow> session_ok s) \<and>
     (\<forall>c p s. peer (C c) = Some p \<and> \<not> shut c \<and> S (sessionId (C c)) = Some s
        \<longrightarrow> (peerId p, p) \<in> set (peers s)) \<and>
     (\<forall>c c' p p'. peer (C c) = Some p \<and> peer (C c') = Some p' \<and> c \<noteq> c'
        \<longrightarrow> peerId p \<noteq> peerId p')"

definition is_closed :: "State \<Rightarrow> ConnId \<Rightarrow> bool" where
  "is_closed st c \<longleftrightarrow> readyState (sockets st c) = CLOSED"

definition registry_inv :: "State \<Rightarrow> bool" where
  "registry_inv st \<longleftrightarrow> registry_ok (sessions st) (conns st) (is_closed st)"

text \<open>Every lock owner is a peer of its session whose role is not \<open>Agent\<close>.\<close>

definition owner_not_agent :: "(string \<rightharpoonup> Session) \<Rightarrow> bool" where
  "owner_not_agent S \<longleftrightarrow>
     (\<forall>sid s owner. S sid = Some s \<and> lockOwnerPeerId s = Some owner
        \<longrightarrow> (\<exists>q. (owner, q) \<in> set (peers s) \<and> role q \<noteq> Agent))"

text \<open>Every event of a run is one the environment can produce and \<open>allowed\<close> admits.\<close>

fun trace_ok :: "(State \<Rightarrow> Event \<Rightarrow> bool) \<Rightarrow> State \<Rightarrow> Event list \<Rightarrow> bool" where
  "trace_ok allowed st [] = True"
| "trace_ok allowed st (ev # evs) \<longleftrightarrow>
     env_ok st ev \<and> allowed st ev \<and> trace_ok allowed (step ev st) evs"

text \<open>The agent, alone in its session, requests the lock.\<close>

definition state_A_locked :: State where
  "state_A_locked = on_message verifyS1 10 (Json (MLock Request)) 40 ''u'' state_A"

text \<open>A controller then joins, and sends a control envelope.\<close>

definition state_A_locked_joined :: State where
  "state_A_locked_joined =
     run [Connection 11, MessageEv verifyS1 11 (Json (MHello ''controller-token'')) 45 ''B1'']
       state_A_locked"

definition state_A_locked_control :: State where
  "state_A_locked_control =
     on_message verifyS1 11 (Json (MControl ''tap'')) 50 ''u'' state_A_locked_joined"

section \<open>Agent (apps/agent/src/index.ts)\<close>

subsection \<open>Pointer events\<close>

datatype PointerAction = Down | Move | Up

text \<open>The variables of \<^verbatim>\<open>main\<close> the pointer branch reads and writes.\<close>

record PointerState =
  currentDisplay :: "(int \<times> int) option"
  touchActive :: bool
  lastMoveTs :: int
  lastSentX :: int
  lastSentY :: int


text \<open>A \<^verbatim>\<open>sendTouch\<close> request: x, y and pressure of its one touch.\<close>

datatype Touch = Touch int int nat

text \<open>What the handler passes to \<^verbatim>\<open>enqueue\<close>: the pointer action it stands for, the
  request, the time of the event and the \<^verbatim>\<open>coalesceMove\<close> flag.\<close>

record Forwarded =
  f_action :: PointerAction
  f_touch :: Touch
  f_time :: int
  f_coalesce :: bool





text \<open>The rest of it: whether the image is sent to the signaling server.
  \<open>maxBuffered\<close> is \<^verbatim>\<open>MAX_WS_BUFFERED_BYTES\<close>.\<close>

definition forwardsFrame :: "nat \<Rightarrow> nat \<Rightarrow> ReadyState \<Rightarrow> nat \<Rightarrow> bool" where
  "forwardsFrame maxBuffered imageLength rs amount =
     (if imageLength = 0 then False
      else if rs \<noteq> OPEN then False
      else if amount > maxBuffered then False
      else True)"












subsection \<open>The command queue\<close>

text \<open>A queued \<^verbatim>\<open>() => Promise<void>\<close>: \<open>ref\<close> is the identity of the closure object (what
  \<^verbatim>\<open>===\<close> compares), \<open>call\<close> the device call it makes.\<close>

record Cmd =
  ref :: nat
  call :: Touch

text \<open>\<open>inFlight\<close> is the call the worker awaits; \<open>started\<close> lists the calls made so far and
  \<open>errorLog\<close> the calls \<^verbatim>\<open>console.error("control command failed", ...)\<close> reported.\<close>

record Executor =
  commandQueue :: "Cmd list"
  pendingMove :: "Cmd option"
  workerRunning :: bool
  inFlight :: "Cmd option"
  started :: "Cmd list"
  errorLog :: "Cmd list"

text \<open>The worker's loop from the \<^verbatim>\<open>while\<close> test to the next \<^verbatim>\<open>await\<close> or to its end:
  \<open>next\<close> is the head of the queue, or \<^verbatim>\<open>pendingMove\<close> when the queue is empty. The
  test after the loop, \<^verbatim>\<open>if (commandQueue.length > 0 || pendingMove) processQueue()\<close>, runs
  with nothing between it and the loop's own failed test, so it does nothing.\<close>

definition clearPending :: "Cmd \<Rightarrow> Executor \<Rightarrow> Executor" where
  "clearPending next ex =
     (if length (commandQueue ex) = 0 \<and> pendingMove ex = Some next
      then ex\<lparr>pendingMove := None\<rparr> else ex)"

definition startCall :: "Cmd \<Rightarrow> Executor \<Rightarrow> Executor" where
  "startCall next ex = ex\<lparr>inFlight := Some next, started := started ex @ [next]\<rparr>"

definition workerLoop :: "Executor \<Rightarrow> Executor" where
  "workerLoop ex =
     (case commandQueue ex of
        next # rest \<Rightarrow> startCall next (clearPending next (ex\<lparr>commandQueue := rest\<rparr>))
      | [] \<Rightarrow>
          (case pendingMove ex of
             Some next \<Rightarrow> startCall next (clearPending next ex)
           | None \<Rightarrow> ex\<lparr>workerRunning := False, inFlight := None\<rparr>))"



text \<open>The awaited call settles: \<^verbatim>\<open>catch\<close> logs a rejection, and the loop goes on.\<close>

definition settle :: "bool \<Rightarrow> Executor \<Rightarrow> Executor" where
  "settle failed ex =
     (case inFlight ex of
        None \<Rightarrow> ex
      | Some cmd \<Rightarrow>
          workerLoop ((if failed then ex\<lparr>errorLog := errorLog ex @ [cmd]\<rparr> else ex)
                        \<lparr>inFlight := None\<rparr>))"

definition pending_work :: "Executor \<Rightarrow> nat" where
  "pending_work ex =
     length (commandQueue ex) + (if pendingMove ex = None then 0 else 1)
       + (if inFlight ex = None then 0 else 1)"

text \<open>The pending move as a list.\<close>

definition pending_list :: "Executor \<Rightarrow> Cmd list" where
  "pending_list ex = (case pendingMove ex of None \<Rightarrow> [] | Some m \<Rightarrow> [m])"

text \<open>The worker runs until nothing is in flight, with no further arrivals; \<open>fails\<close> tells
  which device calls reject.\<close>

function drain :: "(Cmd \<Rightarrow> bool) \<Rightarrow> Executor \<Rightarrow> Executor" where
  "drain fails ex =
     (case inFlight ex of
        None \<Rightarrow> ex
      | Some cmd \<Rightarrow> drain fails (settle (fails cmd) ex))"
  by pat_completeness auto
termination
  by (relation "measure (\<lambda>(fails, ex). pending_work ex)")
     (auto simp: settle_def workerLoop_def pending_work_def startCall_def clearPending_def
           split: list.splits option.splits)

subsection \<open>The handler and the queue together\<close>

text \<open>The agent between two turns of the event loop. \<open>closures\<close> lists what the handler
  passed to \<^verbatim>\<open>enqueue\<close> so far: the closure created for the \<open>n\<close>-th of them has \<open>ref = n\<close>.
  \<open>deviceCalls\<close> lists the device calls made so far, each as the forwarded event it
  carries out and the time the call was made.\<close>

record Agent =
  pointerState :: PointerState
  executor :: Executor
  closures :: "Forwarded list"
  deviceCalls :: "(Forwarded \<times> int) list"









subsection \<open>Example inputs\<close>




text \<open>An executor awaiting call 1, which fails, with two queued calls and a pending move.\<close>

definition fails_ref1 :: "Cmd \<Rightarrow> bool" where
  "fails_ref1 cmd = (ref cmd = 1)"

definition executor_busy :: Executor where
  "executor_busy =
     \<lparr>commandQueue = [\<lparr>ref = 2, call = Touch 10 10 0\<rparr>, \<lparr>ref = 3, call = Touch 20 20 180\<rparr>],
      pendingMove = Some \<lparr>ref = 4, call = Touch 25 20 180\<rparr>,
      workerRunning = True,
      inFlight = Some \<lparr>ref = 1, call = Touch 10 10 180\<rparr>,
      started = [\<lparr>ref = 1, call = Touch 10 10 180\<rparr>],
      errorLog = []\<rparr>"

section \<open>Properties of the signaling server\<close>

subsection \<open>Sockets and sends\<close>

lemma sendJson_readyState [simp]: "readyState (sendJson w m \<sigma> v) = readyState (\<sigma> v)"
  by (simp add: sendJson_def)

lemma sendJson_sent:
  "sent (sendJson w m \<sigma> v) =
     sent (\<sigma> v) @ (if v = w \<and> readyState (\<sigma> v) = OPEN then [m] else [])"
  by (simp add: sendJson_def)

lemma sendJson_other [simp]: "v \<noteq> w \<Longrightarrow> sendJson w m \<sigma> v = \<sigma> v"
  by (simp add: sendJson_def)

lemma sendJson_self:
  "readyState (\<sigma> c) = OPEN \<Longrightarrow> sendJson c m \<sigma> = \<sigma>(c := (\<sigma> c)\<lparr>sent := sent (\<sigma> c) @ [m]\<rparr>)"
  by (simp add: sendJson_def)

lemma sendAll_readyState [simp]: "readyState (sendAll ps m \<sigma> v) = readyState (\<sigma> v)"
  by (induction ps arbitrary: \<sigma>) simp_all

lemma sendAll_sent:
  "sent (sendAll ps m \<sigma> v) =
     sent (\<sigma> v) @ (if readyState (\<sigma> v) = OPEN then replicate (copies v ps) m else [])"
  by (induction ps arbitrary: \<sigma>) (simp_all add: copies_def sendJson_sent replicate_append_same)

lemma broadcast_sendAll:
  "broadcastSessionState s \<sigma> = sendAll (map snd (peers s)) (sessionStatePayload s) \<sigma>"
  by (simp add: broadcastSessionState_def sessionStatePayload_def Let_def)

lemma sendAll_reaches:
  assumes "q \<in> set ps" and "readyState (\<sigma> (ws q)) = OPEN"
  shows "\<exists>pre. sent (sendAll ps m \<sigma> (ws q)) = sent (\<sigma> (ws q)) @ pre @ [m]"
proof -
  from assms(1) have "copies (ws q) ps > 0"
    by (auto simp: copies_def filter_empty_conv)
  then obtain n where n: "copies (ws q) ps = Suc n"
    by (cases "copies (ws q) ps") auto
  have "replicate (Suc n) m = replicate n m @ [m]"
    by (simp add: replicate_append_same)
  with n assms(2) show ?thesis
    by (auto simp add: sendAll_sent simp del: replicate_Suc)
qed

lemma sendAll_after_reply_reaches:
  assumes "q \<in> set ps" and "readyState (\<sigma> (ws q)) = OPEN"
  shows "\<exists>pre. sent (sendAll ps m (sendJson c r \<sigma>) (ws q)) = sent (\<sigma> (ws q)) @ pre @ [m]"
proof -
  from assms have "\<exists>pre. sent (sendAll ps m (sendJson c r \<sigma>) (ws q))
                      = sent (sendJson c r \<sigma> (ws q)) @ pre @ [m]"
    by (intro sendAll_reaches) simp_all
  then obtain pre where "sent (sendAll ps m (sendJson c r \<sigma>) (ws q))
                      = sent (sendJson c r \<sigma> (ws q)) @ pre @ [m]" ..
  then have "sent (sendAll ps m (sendJson c r \<sigma>) (ws q))
           = sent (\<sigma> (ws q)) @
             ((if ws q = c \<and> readyState (\<sigma> (ws q)) = OPEN then [r] else []) @ pre) @ [m]"
    by (simp add: sendJson_sent)
  then show ?thesis by blast
qed

lemma falsy_iff: "v \<noteq> Some [] \<Longrightarrow> falsy v \<longleftrightarrow> v = None"
  by (cases v) (simp_all add: falsy_def)

lemma findSession_live:
  "sessions st sid = Some s \<Longrightarrow> \<not> now > expiresAt s \<Longrightarrow> findSession sid now st = (Some s, st)"
  by (simp add: findSession_def)

subsection \<open>The example states, evaluated\<close>

lemmas server_defs =
  run_def createSession_def on_connection_def on_message_def handshake_def route_def
  findSession_def sendJson_def wsClose_def broadcastSessionState_def relayByRole_def
  lockMessage_def lockRequest_def falsy_def close_event_def on_close_def reassignLock_def
  init_state_def verifyS1_def positive_opt_def Let_def

lemma state_AB_eq: "state_AB =
  \<lparr>sessions = [''S1'' \<mapsto> session_AB],
   sockets = (\<lambda>c. \<lparr>readyState = CONNECTING, sent = [], closeCall = None, bufferedAmount = 0\<rparr>)
     (10 := \<lparr>readyState = OPEN,
       sent = [PHelloAck ''A'' Agent ''S1'' ''emulator-5554'',
        PSessionState ''S1'' None [(''A'', Agent)],
        PSessionState ''S1'' (Some ''B1'') [(''A'', Agent), (''B1'', Controller)],
        PSessionState ''S1'' (Some ''B1'')
         [(''A'', Agent), (''B1'', Controller), (''B2'', Controller)]],
       closeCall = None, bufferedAmount = 0\<rparr>,
      11 := \<lparr>readyState = OPEN,
       sent = [PHelloAck ''B1'' Controller ''S1'' ''emulator-5554'',
        PSessionState ''S1'' (Some ''B1'') [(''A'', Agent), (''B1'', Controller)],
        PSessionState ''S1'' (Some ''B1'')
         [(''A'', Agent), (''B1'', Controller), (''B2'', Controller)]],
       closeCall = None, bufferedAmount = 0\<rparr>,
      12 := \<lparr>readyState = OPEN,
       sent = [PHelloAck ''B2'' Controller ''S1'' ''emulator-5554'',
        PSessionState ''S1'' (Some ''B1'')
         [(''A'', Agent), (''B1'', Controller), (''B2'', Controller)]],
       closeCall = None, bufferedAmount = 0\<rparr>),
   conns = (\<lambda>c. \<lparr>peer = None, sessionId = []\<rparr>)
     (10 := \<lparr>peer = Some \<lparr>peerId = ''A'', role = Agent, ws = 10\<rparr>, sessionId = ''S1''\<rparr>,
      11 := \<lparr>peer = Some \<lparr>peerId = ''B1'', role = Controller, ws = 11\<rparr>, sessionId = ''S1''\<rparr>,
      12 := \<lparr>peer = Some \<lparr>peerId = ''B2'', role = Controller, ws = 12\<rparr>, sessionId = ''S1''\<rparr>)\<rparr>"
  by (simp add: state_AB_def trace_AB_def trace_A_def session_AB_def server_defs fun_upd_twist)

lemma state_AB_facts:
  "sessions state_AB ''S1'' = Some session_AB"
  "conns state_AB 10 = \<lparr>peer = Some \<lparr>peerId = ''A'', role = Agent, ws = 10\<rparr>, sessionId = ''S1''\<rparr>"
  "conns state_AB 11 = \<lparr>peer = Some \<lparr>peerId = ''B1'', role = Controller, ws = 11\<rparr>, sessionId = ''S1''\<rparr>"
  "conns state_AB 12 = \<lparr>peer = Some \<lparr>peerId = ''B2'', role = Controller, ws = 12\<rparr>, sessionId = ''S1''\<rparr>"
  "readyState (sockets state_AB 10) = OPEN"
  "readyState (sockets state_AB 11) = OPEN"
  "readyState (sockets state_AB 12) = OPEN"
  by (simp_all add: state_AB_eq)

lemma state_A_eq: "state_A =
  \<lparr>sessions = [''S1'' \<mapsto> session_A],
   sockets = (\<lambda>c. \<lparr>readyState = CONNECTING, sent = [], closeCall = None, bufferedAmount = 0\<rparr>)
     (10 := \<lparr>readyState = OPEN,
       sent = [PHelloAck ''A'' Agent ''S1'' ''emulator-5554'',
        PSessionState ''S1'' None [(''A'', Agent)]],
       closeCall = None, bufferedAmount = 0\<rparr>),
   conns = (\<lambda>c. \<lparr>peer = None, sessionId = []\<rparr>)
     (10 := \<lparr>peer = Some \<lparr>peerId = ''A'', role = Agent, ws = 10\<rparr>, sessionId = ''S1''\<rparr>)\<rparr>"
  by (simp add: state_A_def trace_A_def session_A_def server_defs)

lemma state_new_facts:
  "peer (conns state_new 13) = None"
  "readyState (sockets state_new 13) = OPEN"
  "sent (sockets state_new 13) = []"
  "sessions state_new ''S0'' = None"
  by (simp_all add: state_new_def on_connection_def state_AB_eq)

subsection \<open>Lock requests\<close>

lemma route_lock:
  assumes "sessions st (sessionId (conns st c)) = Some s" and "\<not> now > expiresAt s"
  shows "route c p (MLock action) now st =
           st\<lparr>sessions := (sessions st)
                 (sessionId (conns st c) \<mapsto> fst (lockMessage c p action s (sockets st))),
              sockets := snd (lockMessage c p action s (sockets st))\<rparr>"
  using assms by (simp add: route_def findSession_live split: prod.splits)

text \<open>
  Claim C6. A lock request from an authenticated peer \<open>p\<close> of a live session: if the
  session is unlocked or locked by \<open>p\<close>, the lock owner becomes \<open>p\<close> and the peer is sent
  \<^verbatim>\<open>lock_result{granted: true, ownerPeerId: p}\<close> (so a request of the owner grants again);
  otherwise the registry is unchanged and the peer is sent
  \<^verbatim>\<open>lock_result{granted: false, ownerPeerId: owner}\<close>. In both cases the reply is followed
  by the \<^verbatim>\<open>session_state\<close> broadcast. Peer ids are \<^verbatim>\<open>randomUUID()\<close> values, so the lock
  owner is never the empty string; the sender's socket is open.
\<close>

theorem lock_request_grants_or_denies:
  assumes "peer (conns st c) = Some p"
    and "sessions st (sessionId (conns st c)) = Some s"
    and "\<not> now > expiresAt s"
    and "readyState (sockets st c) = OPEN"
    and "lockOwnerPeerId s \<noteq> Some []"
  shows "(lockOwnerPeerId s = None \<or> lockOwnerPeerId s = Some (peerId p) \<longrightarrow>
            sessions (on_message verify c (Json (MLock Request)) now uuid st)
              = (sessions st)(sessionId (conns st c) \<mapsto> s\<lparr>lockOwnerPeerId := Some (peerId p)\<rparr>) \<and>
            sent (sockets (on_message verify c (Json (MLock Request)) now uuid st) c)
              = sent (sockets st c) @ PLockResult True (Some (peerId p))
                  # replicate (copies c (map snd (peers s)))
                      (sessionStatePayload (s\<lparr>lockOwnerPeerId := Some (peerId p)\<rparr>)))
       \<and> (lockOwnerPeerId s \<noteq> None \<and> lockOwnerPeerId s \<noteq> Some (peerId p) \<longrightarrow>
            sessions (on_message verify c (Json (MLock Request)) now uuid st) = sessions st \<and>
            sent (sockets (on_message verify c (Json (MLock Request)) now uuid st) c)
              = sent (sockets st c) @ PLockResult False (lockOwnerPeerId s)
                  # replicate (copies c (map snd (peers s))) (sessionStatePayload s))"
  using assms
  by (auto simp: on_message_def route_lock lockMessage_def lockRequest_def falsy_iff
        broadcast_sendAll sendAll_sent sendJson_sent map_upd_triv)

theorem lock_request_grants_or_denies_witness:
  "peer (conns state_AB 12) = Some \<lparr>peerId = ''B2'', role = Controller, ws = 12\<rparr> \<and>
   sessions state_AB (sessionId (conns state_AB 12)) = Some session_AB \<and>
   \<not> 40 > expiresAt session_AB \<and>
   readyState (sockets state_AB 12) = OPEN \<and>
   lockOwnerPeerId session_AB \<noteq> Some [] \<and>
   sessions (on_message verifyS1 12 (Json (MLock Request)) 40 ''u'' state_AB) = sessions state_AB \<and>
   sent (sockets (on_message verifyS1 12 (Json (MLock Request)) 40 ''u'' state_AB) 12)
     = sent (sockets state_AB 12) @
       [PLockResult False (Some ''B1''),
        PSessionState ''S1'' (Some ''B1'')
          [(''A'', Agent), (''B1'', Controller), (''B2'', Controller)]]"
proof -
  have h1: "peer (conns state_AB 12) = Some \<lparr>peerId = ''B2'', role = Controller, ws = 12\<rparr>"
    by (simp add: state_AB_facts)
  have h2: "sessions state_AB (sessionId (conns state_AB 12)) = Some session_AB"
    by (simp add: state_AB_facts)
  have h3: "\<not> 40 > expiresAt session_AB"
    by (simp add: session_AB_def)
  have h4: "readyState (sockets state_AB 12) = OPEN"
    by (simp add: state_AB_facts)
  have h5: "lockOwnerPeerId session_AB \<noteq> Some []"
    by (simp add: session_AB_def)
  have "lockOwnerPeerId session_AB \<noteq> None \<and>
        lockOwnerPeerId session_AB \<noteq> Some (peerId \<lparr>peerId = ''B2'', role = Controller, ws = 12\<rparr>)"
    by (simp add: session_AB_def)
  with lock_request_grants_or_denies [OF h1 h2 h3 h4 h5, of verifyS1 "''u''"]
  have "sessions (on_message verifyS1 12 (Json (MLock Request)) 40 ''u'' state_AB)
          = sessions state_AB \<and>
        sent (sockets (on_message verifyS1 12 (Json (MLock Request)) 40 ''u'' state_AB) 12)
          = sent (sockets state_AB 12) @ PLockResult False (lockOwnerPeerId session_AB)
              # replicate (copies 12 (map snd (peers session_AB))) (sessionStatePayload session_AB)"
    by blast
  then show ?thesis
    using h1 h2 h3 h4 h5 by (simp add: session_AB_def copies_def sessionStatePayload_def)
qed

subsection \<open>Control messages\<close>

lemma route_control:
  assumes "sessions st (sessionId (conns st c)) = Some s" and "\<not> now > expiresAt s"
    and "role p \<noteq> Agent"
  shows "route c p (MControl event) now st =
           (if lockOwnerPeerId s \<noteq> Some (peerId p)
            then st\<lparr>sockets := sendJson c (PError ''Not lock owner'') (sockets st)\<rparr>
            else st\<lparr>sockets := relayByRole s Agent (PControl event) (sockets st)\<rparr>)"
  using assms by (simp add: route_def findSession_live)

text \<open>
  Claim C8. A \<^verbatim>\<open>control\<close> envelope from an authenticated peer whose role is not \<open>Agent\<close>,
  in a live session: if the sender is not the lock owner, the only change of the state
  is the error \<^verbatim>\<open>Not lock owner\<close> appended to what the sender's socket was sent (nothing
  is relayed, registry and connections are as before); if the sender is the lock owner,
  the registry is unchanged and every open socket is sent one copy of the envelope for
  each \<open>Agent\<close> peer of the session attached to it, and nothing else.
\<close>

theorem control_requires_lock_owner:
  assumes "peer (conns st c) = Some p"
    and "role p \<noteq> Agent"
    and "sessions st (sessionId (conns st c)) = Some s"
    and "\<not> now > expiresAt s"
    and "readyState (sockets st c) = OPEN"
  shows "(lockOwnerPeerId s \<noteq> Some (peerId p) \<longrightarrow>
            on_message verify c (Json (MControl event)) now uuid st
              = st\<lparr>sockets := (sockets st)
                    (c := (sockets st c)\<lparr>sent := sent (sockets st c) @ [PError ''Not lock owner'']\<rparr>)\<rparr>)
       \<and> (lockOwnerPeerId s = Some (peerId p) \<longrightarrow>
            sessions (on_message verify c (Json (MControl event)) now uuid st) = sessions st \<and>
            (\<forall>w. sent (sockets (on_message verify c (Json (MControl event)) now uuid st) w)
                   = sent (sockets st w) @
                     (if readyState (sockets st w) = OPEN
                      then replicate (copies w (filter (\<lambda>q. role q = Agent) (map snd (peers s))))
                             (PControl event)
                      else [])))"
  using assms
  by (simp add: on_message_def route_control sendJson_self relayByRole_def sendAll_sent)

theorem control_requires_lock_owner_witness:
  "peer (conns state_AB 12) = Some \<lparr>peerId = ''B2'', role = Controller, ws = 12\<rparr> \<and>
   peer (conns state_AB 11) = Some \<lparr>peerId = ''B1'', role = Controller, ws = 11\<rparr> \<and>
   sessions state_AB ''S1'' = Some session_AB \<and>
   \<not> 40 > expiresAt session_AB \<and>
   readyState (sockets state_AB 12) = OPEN \<and> readyState (sockets state_AB 11) = OPEN \<and>
   on_message verifyS1 12 (Json (MControl ''tap'')) 40 ''u'' state_AB
     = state_AB\<lparr>sockets := (sockets state_AB)
         (12 := (sockets state_AB 12)\<lparr>sent := sent (sockets state_AB 12) @ [PError ''Not lock owner'']\<rparr>)\<rparr> \<and>
   sessions (on_message verifyS1 11 (Json (MControl ''tap'')) 40 ''u'' state_AB) = sessions state_AB \<and>
   sent (sockets (on_message verifyS1 11 (Json (MControl ''tap'')) 40 ''u'' state_AB) 10)
     = sent (sockets state_AB 10) @ [PControl ''tap''] \<and>
   sent (sockets (on_message verifyS1 11 (Json (MControl ''tap'')) 40 ''u'' state_AB) 12)
     = sent (sockets state_AB 12)"
proof -
  have b2: "peer (conns state_AB 12) = Some \<lparr>peerId = ''B2'', role = Controller, ws = 12\<rparr>"
    and b1: "peer (conns state_AB 11) = Some \<lparr>peerId = ''B1'', role = Controller, ws = 11\<rparr>"
    and r2: "role \<lparr>peerId = ''B2'', role = Controller, ws = 12\<rparr> \<noteq> Agent"
    and r1: "role \<lparr>peerId = ''B1'', role = Controller, ws = 11\<rparr> \<noteq> Agent"
    and s2: "sessions state_AB (sessionId (conns state_AB 12)) = Some session_AB"
    and s1: "sessions state_AB (sessionId (conns state_AB 11)) = Some session_AB"
    and live: "\<not> 40 > expiresAt session_AB"
    and o2: "readyState (sockets state_AB 12) = OPEN"
    and o1: "readyState (sockets state_AB 11) = OPEN"
    by (simp_all add: state_AB_facts session_AB_def)
  have own: "lockOwnerPeerId session_AB \<noteq> Some (peerId \<lparr>peerId = ''B2'', role = Controller, ws = 12\<rparr>)"
    "lockOwnerPeerId session_AB = Some (peerId \<lparr>peerId = ''B1'', role = Controller, ws = 11\<rparr>)"
    by (simp_all add: session_AB_def)
  from control_requires_lock_owner [OF b2 r2 s2 live o2, of verifyS1 "''tap''" "''u''"] own(1)
  have deny: "on_message verifyS1 12 (Json (MControl ''tap'')) 40 ''u'' state_AB
     = state_AB\<lparr>sockets := (sockets state_AB)
         (12 := (sockets state_AB 12)\<lparr>sent := sent (sockets state_AB 12) @ [PError ''Not lock owner'']\<rparr>)\<rparr>"
    by blast
  from control_requires_lock_owner [OF b1 r1 s1 live o1, of verifyS1 "''tap''" "''u''"] own(2)
  have relay: "sessions (on_message verifyS1 11 (Json (MControl ''tap'')) 40 ''u'' state_AB) = sessions state_AB"
    "\<And>w. sent (sockets (on_message verifyS1 11 (Json (MControl ''tap'')) 40 ''u'' state_AB) w)
                   = sent (sockets state_AB w) @
                     (if readyState (sockets state_AB w) = OPEN
                      then replicate (copies w (filter (\<lambda>q. role q = Agent) (map snd (peers session_AB))))
                             (PControl ''tap'')
                      else [])"
    by blast+
  have "sent (sockets (on_message verifyS1 11 (Json (MControl ''tap'')) 40 ''u'' state_AB) 10)
     = sent (sockets state_AB 10) @ [PControl ''tap'']"
    unfolding relay(2) by (simp add: state_AB_facts session_AB_def copies_def)
  moreover have "sent (sockets (on_message verifyS1 11 (Json (MControl ''tap'')) 40 ''u'' state_AB) 12)
     = sent (sockets state_AB 12)"
    unfolding relay(2) by (simp add: state_AB_facts session_AB_def copies_def)
  ultimately show ?thesis
    using b2 b1 s2 live o2 o1 deny relay(1) by (simp add: state_AB_facts)
qed

subsection \<open>Lock messages and the broadcast\<close>

lemma lockMessage_result:
  "\<exists>owner' \<sigma>1. (\<sigma>1 = \<sigma> \<or> (\<exists>r. \<sigma>1 = sendJson c r \<sigma>)) \<and>
     lockMessage c p action s \<sigma> =
       (s\<lparr>lockOwnerPeerId := owner'\<rparr>,
        sendAll (map snd (peers s)) (sessionStatePayload (s\<lparr>lockOwnerPeerId := owner'\<rparr>)) \<sigma>1) \<and>
     (action = Release \<and> lockOwnerPeerId s \<noteq> Some (peerId p) \<longrightarrow> owner' = lockOwnerPeerId s) \<and>
     (action = Request \<and> lockOwnerPeerId s \<noteq> None \<and> lockOwnerPeerId s \<noteq> Some []
        \<and> lockOwnerPeerId s \<noteq> Some (peerId p) \<longrightarrow> owner' = lockOwnerPeerId s)"
proof (cases action)
  case Request
  show ?thesis
  proof (cases "falsy (lockOwnerPeerId s) \<or> lockOwnerPeerId s = Some (peerId p)")
    case True
    with Request have "lockMessage c p action s \<sigma> =
       (s\<lparr>lockOwnerPeerId := Some (peerId p)\<rparr>,
        sendAll (map snd (peers s)) (sessionStatePayload (s\<lparr>lockOwnerPeerId := Some (peerId p)\<rparr>))
          (sendJson c (PLockResult True (Some (peerId p))) \<sigma>))"
      by (auto simp: lockMessage_def lockRequest_def broadcast_sendAll)
    moreover from True have "lockOwnerPeerId s \<noteq> None \<and> lockOwnerPeerId s \<noteq> Some []
        \<and> lockOwnerPeerId s \<noteq> Some (peerId p) \<longrightarrow> False"
      by (auto simp: falsy_def split: option.splits)
    ultimately show ?thesis using Request by blast
  next
    case False
    with Request have "lockMessage c p action s \<sigma> =
       (s\<lparr>lockOwnerPeerId := lockOwnerPeerId s\<rparr>,
        sendAll (map snd (peers s)) (sessionStatePayload (s\<lparr>lockOwnerPeerId := lockOwnerPeerId s\<rparr>))
          (sendJson c (PLockResult False (lockOwnerPeerId s)) \<sigma>))"
      by (auto simp: lockMessage_def lockRequest_def broadcast_sendAll)
    then show ?thesis using Request by blast
  qed
next
  case Release
  show ?thesis
  proof (cases "lockOwnerPeerId s = Some (peerId p)")
    case True
    with Release have "lockMessage c p action s \<sigma> =
       (s\<lparr>lockOwnerPeerId := None\<rparr>,
        sendAll (map snd (peers s)) (sessionStatePayload (s\<lparr>lockOwnerPeerId := None\<rparr>)) \<sigma>)"
      by (simp add: lockMessage_def broadcast_sendAll Let_def)
    then show ?thesis using Release True by blast
  next
    case False
    with Release have "lockMessage c p action s \<sigma> =
       (s\<lparr>lockOwnerPeerId := lockOwnerPeerId s\<rparr>,
        sendAll (map snd (peers s)) (sessionStatePayload (s\<lparr>lockOwnerPeerId := lockOwnerPeerId s\<rparr>)) \<sigma>)"
      by (auto simp: lockMessage_def broadcast_sendAll)
    then show ?thesis using Release by blast
  qed
qed

text \<open>
  Claim C10. Every \<^verbatim>\<open>lock\<close> envelope (request or release) from an authenticated peer of
  a live session is followed by a \<^verbatim>\<open>session_state\<close> broadcast: the session keeps its
  peers, and what each peer's open socket was sent grows and ends with the
  \<^verbatim>\<open>session_state\<close> of the session as it is after the message. That holds also when the
  session did not change: after a release by a peer that is not the owner, and after a
  denied request.
\<close>

theorem lock_message_always_broadcasts:
  assumes "peer (conns st c) = Some p"
    and "sessions st (sessionId (conns st c)) = Some s"
    and "\<not> now > expiresAt s"
  shows "\<exists>s'. sessions (on_message verify c (Json (MLock action)) now uuid st)
                (sessionId (conns st c)) = Some s' \<and>
              peers s' = peers s \<and>
              (\<forall>q \<in> set (map snd (peers s)). readyState (sockets st (ws q)) = OPEN \<longrightarrow>
                 (\<exists>pre. sent (sockets (on_message verify c (Json (MLock action)) now uuid st) (ws q))
                          = sent (sockets st (ws q)) @ pre @ [sessionStatePayload s'])) \<and>
              (action = Release \<and> lockOwnerPeerId s \<noteq> Some (peerId p) \<longrightarrow> s' = s) \<and>
              (action = Request \<and> lockOwnerPeerId s \<noteq> None \<and> lockOwnerPeerId s \<noteq> Some []
                 \<and> lockOwnerPeerId s \<noteq> Some (peerId p) \<longrightarrow> s' = s)"
proof -
  obtain owner' \<sigma>1 where
    \<sigma>1: "\<sigma>1 = sockets st \<or> (\<exists>r. \<sigma>1 = sendJson c r (sockets st))" and
    lm: "lockMessage c p action s (sockets st) =
       (s\<lparr>lockOwnerPeerId := owner'\<rparr>,
        sendAll (map snd (peers s)) (sessionStatePayload (s\<lparr>lockOwnerPeerId := owner'\<rparr>)) \<sigma>1)" and
    rel: "action = Release \<and> lockOwnerPeerId s \<noteq> Some (peerId p) \<longrightarrow> owner' = lockOwnerPeerId s" and
    req: "action = Request \<and> lockOwnerPeerId s \<noteq> None \<and> lockOwnerPeerId s \<noteq> Some []
        \<and> lockOwnerPeerId s \<noteq> Some (peerId p) \<longrightarrow> owner' = lockOwnerPeerId s"
    using lockMessage_result [where c = c and \<sigma> = "sockets st" and p = p and action = action and s = s]
    by blast
  let ?s' = "s\<lparr>lockOwnerPeerId := owner'\<rparr>"
  let ?st' = "on_message verify c (Json (MLock action)) now uuid st"
  have st': "?st' = st\<lparr>sessions := (sessions st)(sessionId (conns st c) \<mapsto> ?s'),
                      sockets := sendAll (map snd (peers s)) (sessionStatePayload ?s') \<sigma>1\<rparr>"
    using assms lm by (simp add: on_message_def route_lock)
  have reach: "\<exists>pre. sent (sockets ?st' (ws q)) = sent (sockets st (ws q)) @ pre @ [sessionStatePayload ?s']"
    if "q \<in> set (map snd (peers s))" and "readyState (sockets st (ws q)) = OPEN" for q
  proof -
    from \<sigma>1 show ?thesis
    proof
      assume "\<sigma>1 = sockets st"
      with that show ?thesis
        unfolding st' by (simp add: sendAll_reaches del: set_map)
    next
      assume "\<exists>r. \<sigma>1 = sendJson c r (sockets st)"
      then obtain r where "\<sigma>1 = sendJson c r (sockets st)" ..
      with that show ?thesis
        unfolding st' by (simp add: sendAll_after_reply_reaches del: set_map)
    qed
  qed
  have "sessions ?st' (sessionId (conns st c)) = Some ?s'"
    by (simp add: st')
  moreover have "peers ?s' = peers s" by simp
  moreover from rel have "action = Release \<and> lockOwnerPeerId s \<noteq> Some (peerId p) \<longrightarrow> ?s' = s"
    by auto
  moreover from req have "action = Request \<and> lockOwnerPeerId s \<noteq> None \<and> lockOwnerPeerId s \<noteq> Some []
                 \<and> lockOwnerPeerId s \<noteq> Some (peerId p) \<longrightarrow> ?s' = s"
    by auto
  ultimately show ?thesis using reach by blast
qed

theorem lock_message_always_broadcasts_witness:
  "peer (conns state_AB 12) = Some \<lparr>peerId = ''B2'', role = Controller, ws = 12\<rparr> \<and>
   sessions state_AB (sessionId (conns state_AB 12)) = Some session_AB \<and>
   \<not> 40 > expiresAt session_AB \<and>
   (\<exists>s'. sessions (on_message verifyS1 12 (Json (MLock Release)) 40 ''u'' state_AB) ''S1'' = Some s' \<and>
      s' = session_AB \<and>
      (\<forall>w \<in> {10, 11, 12}. readyState (sockets state_AB w) = OPEN \<and>
         (\<exists>pre. sent (sockets (on_message verifyS1 12 (Json (MLock Release)) 40 ''u'' state_AB) w)
                  = sent (sockets state_AB w) @ pre @ [sessionStatePayload s'])))"
proof -
  have h1: "peer (conns state_AB 12) = Some \<lparr>peerId = ''B2'', role = Controller, ws = 12\<rparr>"
    and h2: "sessions state_AB (sessionId (conns state_AB 12)) = Some session_AB"
    and h3: "\<not> 40 > expiresAt session_AB"
    by (simp_all add: state_AB_facts session_AB_def)
  have not_owner: "lockOwnerPeerId session_AB \<noteq> Some (peerId \<lparr>peerId = ''B2'', role = Controller, ws = 12\<rparr>)"
    by (simp add: session_AB_def)
  have sockets_of: "ws ` set (map snd (peers session_AB)) = {10, 11, 12}"
    by (simp add: session_AB_def)
  from lock_message_always_broadcasts [OF h1 h2 h3, of verifyS1 Release "''u''"] not_owner
  obtain s' where s': "sessions (on_message verifyS1 12 (Json (MLock Release)) 40 ''u'' state_AB)
                (sessionId (conns state_AB 12)) = Some s'" "s' = session_AB"
     and bc: "\<forall>q \<in> set (map snd (peers session_AB)). readyState (sockets state_AB (ws q)) = OPEN \<longrightarrow>
                 (\<exists>pre. sent (sockets (on_message verifyS1 12 (Json (MLock Release)) 40 ''u'' state_AB) (ws q))
                          = sent (sockets state_AB (ws q)) @ pre @ [sessionStatePayload s'])"
    by blast
  from bc have "\<forall>w \<in> ws ` set (map snd (peers session_AB)). readyState (sockets state_AB w) = OPEN \<longrightarrow>
                 (\<exists>pre. sent (sockets (on_message verifyS1 12 (Json (MLock Release)) 40 ''u'' state_AB) w)
                          = sent (sockets state_AB w) @ pre @ [sessionStatePayload s'])"
    by blast
  then have "\<forall>w \<in> {10, 11, 12}. readyState (sockets state_AB w) = OPEN \<and>
         (\<exists>pre. sent (sockets (on_message verifyS1 12 (Json (MLock Release)) 40 ''u'' state_AB) w)
                  = sent (sockets state_AB w) @ pre @ [sessionStatePayload s'])"
    unfolding sockets_of by (simp add: state_AB_facts)
  with s' h1 h2 h3 show ?thesis
    by (simp add: state_AB_facts)
qed

subsection \<open>Disconnects\<close>

text \<open>
  Claim C7. When the connection of a peer \<open>p\<close> closes (its session id set, its session
  in the registry): \<open>p\<close> is removed from the peers; if \<open>p\<close> held the lock, the new owner
  is the first remaining peer of role \<open>Controller\<close>, or nobody when there is none, and
  otherwise the owner stays; if no peer remains the session is deleted and nothing is
  sent; if peers remain, the session is stored with the new owner and the remaining
  peers are sent the \<^verbatim>\<open>session_state\<close> built from that stored session, so the
  reassignment comes before the broadcast.
\<close>

theorem disconnect_removes_and_reassigns:
  assumes "peer (conns st c) = Some p"
    and "sessionId (conns st c) \<noteq> []"
    and "sessions st (sessionId (conns st c)) = Some s"
  shows "(let remaining = AList.delete (peerId p) (peers s);
              owner' = (if lockOwnerPeerId s = Some (peerId p)
                        then map_option peerId (find (\<lambda>q. role q = Controller) (map snd remaining))
                        else lockOwnerPeerId s);
              s' = s\<lparr>peers := remaining, lockOwnerPeerId := owner'\<rparr>
          in peerId p \<notin> fst ` set remaining \<and>
             (remaining = [] \<longrightarrow>
                on_close c st = st\<lparr>sessions := (sessions st)(sessionId (conns st c) := None)\<rparr>) \<and>
             (remaining \<noteq> [] \<longrightarrow>
                on_close c st =
                  st\<lparr>sessions := (sessions st)(sessionId (conns st c) \<mapsto> s'),
                     sockets := sendAll (map snd remaining) (sessionStatePayload s') (sockets st)\<rparr>))"
  using assms
  by (auto simp: on_close_def reassignLock_def Let_def broadcast_sendAll AList.delete_notin_dom
           split: option.splits)


theorem disconnect_removes_and_reassigns_witness:
  "peer (conns state_AB 11) = Some \<lparr>peerId = ''B1'', role = Controller, ws = 11\<rparr> \<and>
   sessionId (conns state_AB 11) \<noteq> [] \<and>
   sessions state_AB (sessionId (conns state_AB 11)) = Some session_AB \<and>
   lockOwnerPeerId session_AB = Some ''B1'' \<and>
   sessions (on_close 11 state_AB) ''S1'' = Some
     (session_AB\<lparr>peers := [(''A'', \<lparr>peerId = ''A'', role = Agent, ws = 10\<rparr>),
                           (''B2'', \<lparr>peerId = ''B2'', role = Controller, ws = 12\<rparr>)],
                 lockOwnerPeerId := Some ''B2''\<rparr>) \<and>
   sent (sockets (on_close 11 state_AB) 12)
     = sent (sockets state_AB 12) @
       [PSessionState ''S1'' (Some ''B2'') [(''A'', Agent), (''B2'', Controller)]] \<and>
   sent (sockets (on_close 11 state_AB) 11) = sent (sockets state_AB 11) \<and>
   peer (conns state_A 10) = Some \<lparr>peerId = ''A'', role = Agent, ws = 10\<rparr> \<and>
   sessions state_A (sessionId (conns state_A 10)) = Some session_A \<and>
   on_close 10 state_A = state_A\<lparr>sessions := (sessions state_A)(''S1'' := None)\<rparr>"
proof -
  have h1: "peer (conns state_AB 11) = Some \<lparr>peerId = ''B1'', role = Controller, ws = 11\<rparr>"
    and h2: "sessionId (conns state_AB 11) \<noteq> []"
    and h3: "sessions state_AB (sessionId (conns state_AB 11)) = Some session_AB"
    by (simp_all add: state_AB_facts)
  have a1: "peer (conns state_A 10) = Some \<lparr>peerId = ''A'', role = Agent, ws = 10\<rparr>"
    and a2: "sessionId (conns state_A 10) \<noteq> []"
    and a3: "sessions state_A (sessionId (conns state_A 10)) = Some session_A"
    and a4: "sessionId (conns state_A 10) = ''S1''"
    by (simp_all add: state_A_eq)
  have owner: "lockOwnerPeerId session_AB = Some ''B1''"
    by (simp add: session_AB_def)
  from disconnect_removes_and_reassigns [OF h1 h2 h3]
  have "on_close 11 state_AB =
          state_AB\<lparr>sessions := (sessions state_AB)(''S1'' \<mapsto>
              session_AB\<lparr>peers := [(''A'', \<lparr>peerId = ''A'', role = Agent, ws = 10\<rparr>),
                           (''B2'', \<lparr>peerId = ''B2'', role = Controller, ws = 12\<rparr>)],
                 lockOwnerPeerId := Some ''B2''\<rparr>),
            sockets := sendAll [\<lparr>peerId = ''A'', role = Agent, ws = 10\<rparr>,
                                \<lparr>peerId = ''B2'', role = Controller, ws = 12\<rparr>]
                         (PSessionState ''S1'' (Some ''B2'') [(''A'', Agent), (''B2'', Controller)])
                         (sockets state_AB)\<rparr>"
    by (simp add: state_AB_facts session_AB_def sessionStatePayload_def Let_def)
  then have b: "sessions (on_close 11 state_AB) ''S1'' = Some
     (session_AB\<lparr>peers := [(''A'', \<lparr>peerId = ''A'', role = Agent, ws = 10\<rparr>),
                           (''B2'', \<lparr>peerId = ''B2'', role = Controller, ws = 12\<rparr>)],
                 lockOwnerPeerId := Some ''B2''\<rparr>)"
    "sent (sockets (on_close 11 state_AB) 12)
     = sent (sockets state_AB 12) @
       [PSessionState ''S1'' (Some ''B2'') [(''A'', Agent), (''B2'', Controller)]]"
    "sent (sockets (on_close 11 state_AB) 11) = sent (sockets state_AB 11)"
    by (simp_all add: sendJson_sent state_AB_facts)
  from disconnect_removes_and_reassigns [OF a1 a2 a3]
  have "on_close 10 state_A = state_A\<lparr>sessions := (sessions state_A)(''S1'' := None)\<rparr>"
    by (simp add: a4 session_A_def Let_def)
  with b h1 h2 h3 a1 a3 owner show ?thesis
    by simp
qed

subsection \<open>Failed handshakes\<close>

text \<open>
  Claim C5, as the code has it. On a newly opened connection (no peer yet, socket open):
  a first message that is JSON but not a \<^verbatim>\<open>hello\<close> envelope with a non-empty token closes
  the connection with 4000 \<^verbatim>\<open>Auth required\<close>; a token that fails verification closes it
  with 4003 \<^verbatim>\<open>Invalid token\<close>; a verified token naming a session that is not in the
  registry closes it with 4004 \<^verbatim>\<open>Session not found\<close>; a first message that is not JSON is
  answered with the error \<^verbatim>\<open>Invalid JSON message\<close> and the connection stays open. In all
  four cases the error envelope and the close are the only change of the state: no peer
  is created, and registry and connection variables are as before.
\<close>

theorem failed_handshake_creates_no_peer:
  assumes "peer (conns st c) = None"
    and "readyState (sockets st c) = OPEN"
  shows "(helloSchema m = None \<longrightarrow>
            on_message verify c (Json m) now uuid st =
              st\<lparr>sockets := (sockets st)(c := (sockets st c)
                    \<lparr>sent := sent (sockets st c) @ [PError ''First message must be hello''],
                     readyState := CLOSING,
                     closeCall := Some (4000, ''Auth required'')\<rparr>)\<rparr>)
       \<and> (\<forall>token. helloSchema m = Some token \<and> verify token = None \<longrightarrow>
            on_message verify c (Json m) now uuid st =
              st\<lparr>sockets := (sockets st)(c := (sockets st c)
                    \<lparr>sent := sent (sockets st c) @ [PError ''Invalid token''],
                     readyState := CLOSING,
                     closeCall := Some (4003, ''Invalid token'')\<rparr>)\<rparr>)
       \<and> (\<forall>token decoded. helloSchema m = Some token \<and> verify token = Some decoded
                \<and> sessions st (tp_sessionId decoded) = None \<longrightarrow>
            on_message verify c (Json m) now uuid st =
              st\<lparr>sockets := (sockets st)(c := (sockets st c)
                    \<lparr>sent := sent (sockets st c) @ [PError ''Session not found''],
                     readyState := CLOSING,
                     closeCall := Some (4004, ''Session not found'')\<rparr>)\<rparr>)
       \<and> on_message verify c InvalidJson now uuid st =
            st\<lparr>sockets := (sockets st)(c := (sockets st c)
                  \<lparr>sent := sent (sockets st c) @ [PError ''Invalid JSON message'']\<rparr>)\<rparr>"
  using assms
  by (simp add: on_message_def handshake_def findSession_def sendJson_def wsClose_def)


theorem failed_handshake_creates_no_peer_witness:
  "peer (conns state_new 13) = None \<and>
   readyState (sockets state_new 13) = OPEN \<and>
   helloSchema MOther = None \<and>
   on_message verifyS1 13 (Json MOther) 40 ''u'' state_new =
     state_new\<lparr>sockets := (sockets state_new)(13 := (sockets state_new 13)
        \<lparr>sent := [PError ''First message must be hello''],
         readyState := CLOSING, closeCall := Some (4000, ''Auth required'')\<rparr>)\<rparr> \<and>
   helloSchema (MHello ''forged'') = Some ''forged'' \<and> verifyS1 ''forged'' = None \<and>
   on_message verifyS1 13 (Json (MHello ''forged'')) 40 ''u'' state_new =
     state_new\<lparr>sockets := (sockets state_new)(13 := (sockets state_new 13)
        \<lparr>sent := [PError ''Invalid token''],
         readyState := CLOSING, closeCall := Some (4003, ''Invalid token'')\<rparr>)\<rparr> \<and>
   helloSchema (MHello ''stale-token'') = Some ''stale-token'' \<and>
   verifyS1 ''stale-token'' = Some \<lparr>tp_sessionId = ''S0'', tp_role = Viewer\<rparr> \<and>
   sessions state_new ''S0'' = None \<and>
   on_message verifyS1 13 (Json (MHello ''stale-token'')) 40 ''u'' state_new =
     state_new\<lparr>sockets := (sockets state_new)(13 := (sockets state_new 13)
        \<lparr>sent := [PError ''Session not found''],
         readyState := CLOSING, closeCall := Some (4004, ''Session not found'')\<rparr>)\<rparr> \<and>
   on_message verifyS1 13 InvalidJson 40 ''u'' state_new =
     state_new\<lparr>sockets := (sockets state_new)(13 := (sockets state_new 13)
        \<lparr>sent := [PError ''Invalid JSON message'']\<rparr>)\<rparr>"
proof -
  have h1: "peer (conns state_new 13) = None"
    and h2: "readyState (sockets state_new 13) = OPEN"
    by (simp_all add: state_new_facts)
  have m1: "helloSchema MOther = None"
    and m2: "helloSchema (MHello ''forged'') = Some ''forged''" "verifyS1 ''forged'' = None"
    and m3: "helloSchema (MHello ''stale-token'') = Some ''stale-token''"
      "verifyS1 ''stale-token'' = Some \<lparr>tp_sessionId = ''S0'', tp_role = Viewer\<rparr>"
      "sessions state_new (tp_sessionId \<lparr>tp_sessionId = ''S0'', tp_role = Viewer\<rparr>) = None"
    by (simp_all add: verifyS1_def state_new_facts)
  from failed_handshake_creates_no_peer [OF h1 h2, of MOther verifyS1 40 "''u''"] m1
  have c1: "on_message verifyS1 13 (Json MOther) 40 ''u'' state_new =
     state_new\<lparr>sockets := (sockets state_new)(13 := (sockets state_new 13)
        \<lparr>sent := [PError ''First message must be hello''],
         readyState := CLOSING, closeCall := Some (4000, ''Auth required'')\<rparr>)\<rparr>"
    by (simp add: state_new_facts)
  from failed_handshake_creates_no_peer [OF h1 h2, of "MHello ''forged''" verifyS1 40 "''u''"] m2
  have c2: "on_message verifyS1 13 (Json (MHello ''forged'')) 40 ''u'' state_new =
     state_new\<lparr>sockets := (sockets state_new)(13 := (sockets state_new 13)
        \<lparr>sent := [PError ''Invalid token''],
         readyState := CLOSING, closeCall := Some (4003, ''Invalid token'')\<rparr>)\<rparr>"
    by (simp add: state_new_facts)
  from failed_handshake_creates_no_peer [OF h1 h2, of "MHello ''stale-token''" verifyS1 40 "''u''"] m3
  have c3: "on_message verifyS1 13 (Json (MHello ''stale-token'')) 40 ''u'' state_new =
     state_new\<lparr>sockets := (sockets state_new)(13 := (sockets state_new 13)
        \<lparr>sent := [PError ''Session not found''],
         readyState := CLOSING, closeCall := Some (4004, ''Session not found'')\<rparr>)\<rparr>"
    by (simp add: state_new_facts)
  from failed_handshake_creates_no_peer [OF h1 h2, of MOther verifyS1 40 "''u''"]
  have c4: "on_message verifyS1 13 InvalidJson 40 ''u'' state_new =
     state_new\<lparr>sockets := (sockets state_new)(13 := (sockets state_new 13)
        \<lparr>sent := [PError ''Invalid JSON message'']\<rparr>)\<rparr>"
    by (simp add: state_new_facts)
  from h1 h2 m1 m2 m3 c1 c2 c3 c4 show ?thesis
    by simp
qed

text \<open>
  The claim C5 as the specification states it fails where the first message is not
  JSON: it is not a \<^verbatim>\<open>hello\<close> envelope, and the connection is neither closed nor given a
  close reason.
\<close>

theorem first_message_not_json_counterexample:
  "peer (conns state_new 13) = None \<and>
   readyState (sockets state_new 13) = OPEN \<and>
   readyState (sockets (on_message verifyS1 13 InvalidJson 40 ''u'' state_new) 13) = OPEN \<and>
   closeCall (sockets (on_message verifyS1 13 InvalidJson 40 ''u'' state_new) 13) = None"
  by (simp add: state_new_def on_connection_def state_AB_eq on_message_def sendJson_def)

subsection \<open>Frame relay\<close>

text \<open>The agent does test the threshold, on its own socket to the signaling server.\<close>

lemma forwardsFrame_iff:
  "forwardsFrame maxBuffered imageLength rs amount \<longleftrightarrow>
     imageLength \<noteq> 0 \<and> rs = OPEN \<and> amount \<le> maxBuffered"
  by (auto simp: forwardsFrame_def)

text \<open>The relay of a frame sends to every open socket of a controller or viewer; the
  buffered amounts play no part.\<close>

lemma frame_relay_ignores_buffered:
  assumes "peer (conns st c) = Some p" and "role p = Agent"
    and "sessions st (sessionId (conns st c)) = Some s" and "\<not> now > expiresAt s"
    and "frameSchema m = Some frame"
  shows "sent (sockets (on_message verify c (Json m) now uuid st) w)
         = sent (sockets st w) @
           (if readyState (sockets st w) = OPEN
            then replicate (copies w (filter (\<lambda>q. role q = Controller) (map snd (peers s)))) (PFrame frame)
                 @ replicate (copies w (filter (\<lambda>q. role q = Viewer) (map snd (peers s)))) (PFrame frame)
            else [])"
proof -
  from assms(5) have "signalSchema m = None"
    by (cases m) simp_all
  with assms show ?thesis
    by (simp add: on_message_def route_def findSession_live relayByRole_def sendAll_sent)
qed

text \<open>
  Claim C3 at a failing input: in \<open>state_AB\<close> the socket of controller \<open>B2\<close> is open with
  3000000 bytes buffered, more than either threshold the documentation names (1500000
  for the agent, 2000000 for the signaling server); a frame of the agent is sent to it
  all the same.
\<close>

theorem frame_relayed_to_congested_peer:
  "bufferedAmount (sockets (buffered 12 3000000 state_AB) 12) = 3000000 \<and>
   readyState (sockets (buffered 12 3000000 state_AB) 12) = OPEN \<and>
   peer (conns (buffered 12 3000000 state_AB) 10) = Some \<lparr>peerId = ''A'', role = Agent, ws = 10\<rparr> \<and>
   sent (sockets (on_message verifyS1 10 (Json (MFrame frame_png)) 50 ''u''
                    (buffered 12 3000000 state_AB)) 12)
     = sent (sockets (buffered 12 3000000 state_AB) 12) @ [PFrame frame_png]"
  by (simp add: buffered_def state_AB_eq session_AB_def frame_png_def on_message_def route_def
        findSession_def relayByRole_def sendJson_def positive_opt_def)

subsection \<open>What the handlers leave alone\<close>

lemma wsClose_closed [simp]:
  "(readyState (wsClose w code reason \<sigma> v) = CLOSED) = (readyState (\<sigma> v) = CLOSED)"
  by (simp add: wsClose_def)

lemma expireAll_closed [simp]:
  "(readyState (expireAll ps \<sigma> v) = CLOSED) = (readyState (\<sigma> v) = CLOSED)"
  by (induction ps arbitrary: \<sigma>) simp_all

lemma broadcast_readyState [simp]:
  "readyState (broadcastSessionState s \<sigma> v) = readyState (\<sigma> v)"
  by (simp add: broadcast_sendAll)

lemma relay_readyState [simp]:
  "readyState (relayByRole s r m \<sigma> v) = readyState (\<sigma> v)"
  by (simp add: relayByRole_def)

lemma findSession_cases:
  obtains (missing) "sessions st sid = None" "findSession sid now st = (None, st)"
  | (expired) s where "sessions st sid = Some s" "now > expiresAt s"
      "findSession sid now st =
         (None, st\<lparr>sessions := (sessions st)(sid := None),
                    sockets := expireAll (map snd (peers s)) (sockets st)\<rparr>)"
  | (live) s where "sessions st sid = Some s" "\<not> now > expiresAt s"
      "findSession sid now st = (Some s, st)"
  by (cases "sessions st sid") (auto simp: findSession_def)

lemma lockMessage_readyState [simp]:
  "readyState (snd (lockMessage c p action s \<sigma>) v) = readyState (\<sigma> v)"
  by (simp add: lockMessage_def lockRequest_def Let_def split: prod.splits if_splits)

lemma lockMessage_session:
  "\<exists>owner'. fst (lockMessage c p action s \<sigma>) = s\<lparr>lockOwnerPeerId := owner'\<rparr> \<and>
     (owner' = lockOwnerPeerId s \<or> owner' = None \<or> owner' = Some (peerId p) \<and> action = Request)"
proof (cases "action = Request \<and> (falsy (lockOwnerPeerId s) \<or> lockOwnerPeerId s = Some (peerId p))")
  case True
  then have "fst (lockMessage c p action s \<sigma>) = s\<lparr>lockOwnerPeerId := Some (peerId p)\<rparr>"
    by (simp add: lockMessage_def lockRequest_def Let_def)
  with True show ?thesis by blast
next
  case False
  show ?thesis
  proof (cases "action = Release \<and> lockOwnerPeerId s = Some (peerId p)")
    case True
    then have "fst (lockMessage c p action s \<sigma>) = s\<lparr>lockOwnerPeerId := None\<rparr>"
      by (simp add: lockMessage_def Let_def)
    then show ?thesis by blast
  next
    case no_release: False
    with False have "fst (lockMessage c p action s \<sigma>) = s\<lparr>lockOwnerPeerId := lockOwnerPeerId s\<rparr>"
      by (cases action) (auto simp: lockMessage_def lockRequest_def Let_def)
    then show ?thesis by blast
  qed
qed

lemma route_effect:
  "conns (route c p m now st) = conns st \<and>
   is_closed (route c p m now st) = is_closed st \<and>
   (sessions (route c p m now st) = sessions st \<or>
    sessions (route c p m now st) = (sessions st)(sessionId (conns st c) := None) \<or>
    (\<exists>s owner'. sessions st (sessionId (conns st c)) = Some s \<and>
        sessions (route c p m now st)
          = (sessions st)(sessionId (conns st c) \<mapsto> s\<lparr>lockOwnerPeerId := owner'\<rparr>) \<and>
        (owner' = lockOwnerPeerId s \<or> owner' = None \<or>
         owner' = Some (peerId p) \<and> m = MLock Request)))"
proof (cases rule: findSession_cases [of st "sessionId (conns st c)" now])
  case missing
  then show ?thesis
    by (simp add: route_def is_closed_def fun_eq_iff)
next
  case (expired s)
  then show ?thesis
    by (simp add: route_def is_closed_def fun_eq_iff)
next
  case (live s)
  show ?thesis
  proof (cases m)
    case (MLock action)
    obtain owner' where o: "fst (lockMessage c p action s (sockets st)) = s\<lparr>lockOwnerPeerId := owner'\<rparr>"
      "owner' = lockOwnerPeerId s \<or> owner' = None \<or> owner' = Some (peerId p) \<and> action = Request"
      using lockMessage_session by blast
    with live MLock show ?thesis
      by (auto simp: route_def is_closed_def fun_eq_iff split_beta)
  qed (use live in \<open>simp_all add: route_def is_closed_def fun_eq_iff split: bool.splits\<close>)
qed

lemma handshake_effect:
  "is_closed (handshake verify c m now uuid st) = is_closed st \<and>
   (conns (handshake verify c m now uuid st) = conns st \<and>
      (sessions (handshake verify c m now uuid st) = sessions st \<or>
       (\<exists>sid. sessions (handshake verify c m now uuid st) = (sessions st)(sid := None)))
    \<or> (\<exists>sid s r owner'. sessions st sid = Some s \<and>
          conns (handshake verify c m now uuid st)
            = (conns st)(c := \<lparr>peer = Some \<lparr>peerId = uuid, role = r, ws = c\<rparr>, sessionId = sid\<rparr>) \<and>
          sessions (handshake verify c m now uuid st)
            = (sessions st)(sid \<mapsto> s\<lparr>peers := AList.update uuid \<lparr>peerId = uuid, role = r, ws = c\<rparr> (peers s),
                                     lockOwnerPeerId := owner'\<rparr>) \<and>
          (owner' = lockOwnerPeerId s \<or> owner' = Some uuid \<and> r = Controller)))"
proof (cases "helloSchema m")
  case None
  then show ?thesis
    by (simp add: handshake_def is_closed_def fun_eq_iff)
next
  case (Some token)
  show ?thesis
  proof (cases "verify token")
    case None
    with Some show ?thesis
      by (simp add: handshake_def is_closed_def fun_eq_iff)
  next
    case decoded: (Some decoded)
    show ?thesis
    proof (cases rule: findSession_cases [of st "tp_sessionId decoded" now])
      case missing
      with Some decoded show ?thesis
        by (simp add: handshake_def is_closed_def fun_eq_iff)
    next
      case (expired s)
      with Some decoded show ?thesis
        by (auto simp: handshake_def is_closed_def fun_eq_iff)
    next
      case (live s)
      let ?P = "\<lparr>peerId = uuid, role = tp_role decoded, ws = c\<rparr>"
      let ?o = "if falsy (lockOwnerPeerId s) \<and> tp_role decoded = Controller
                then Some uuid else lockOwnerPeerId s"
      have S: "sessions (handshake verify c m now uuid st) =
              (sessions st)(tp_sessionId decoded \<mapsto>
                     s\<lparr>peers := AList.update uuid ?P (peers s), lockOwnerPeerId := ?o\<rparr>)"
        using Some decoded live by (simp add: handshake_def Let_def)
      have C: "conns (handshake verify c m now uuid st) =
              (conns st)(c := \<lparr>peer = Some ?P, sessionId = tp_sessionId decoded\<rparr>)"
        using Some decoded live by (simp add: handshake_def Let_def)
      have K: "is_closed (handshake verify c m now uuid st) = is_closed st"
        using Some decoded live by (simp add: handshake_def Let_def is_closed_def fun_eq_iff)
      have O: "?o = lockOwnerPeerId s \<or> ?o = Some uuid \<and> tp_role decoded = Controller"
        by simp
      from live(1) S C O
      have "\<exists>sid s r owner'. sessions st sid = Some s \<and>
          conns (handshake verify c m now uuid st)
            = (conns st)(c := \<lparr>peer = Some \<lparr>peerId = uuid, role = r, ws = c\<rparr>, sessionId = sid\<rparr>) \<and>
          sessions (handshake verify c m now uuid st)
            = (sessions st)(sid \<mapsto> s\<lparr>peers := AList.update uuid \<lparr>peerId = uuid, role = r, ws = c\<rparr> (peers s),
                                     lockOwnerPeerId := owner'\<rparr>) \<and>
          (owner' = lockOwnerPeerId s \<or> owner' = Some uuid \<and> r = Controller)"
        by blast
      with K show ?thesis by blast
    qed
  qed
qed

lemma reassignLock_effect:
  "\<exists>owner'. reassignLock p s = s\<lparr>lockOwnerPeerId := owner'\<rparr> \<and>
     (owner' = lockOwnerPeerId s \<and> owner' \<noteq> Some (peerId p) \<or> owner' = None \<or>
      (\<exists>q. q \<in> snd ` set (peers s) \<and> role q = Controller \<and> owner' = Some (peerId q)))"
proof (cases "lockOwnerPeerId s = Some (peerId p)")
  case False
  then have "reassignLock p s = s\<lparr>lockOwnerPeerId := lockOwnerPeerId s\<rparr>"
    by (simp add: reassignLock_def)
  with False show ?thesis by blast
next
  case True
  show ?thesis
  proof (cases "find (\<lambda>q. role q = Controller) (map snd (peers s))")
    case None
    with True have "reassignLock p s = s\<lparr>lockOwnerPeerId := None\<rparr>"
      by (simp add: reassignLock_def)
    then show ?thesis by blast
  next
    case (Some q)
    then have "q \<in> snd ` set (peers s)" "role q = Controller"
      by (auto simp: find_Some_iff)
    moreover from True Some have "reassignLock p s = s\<lparr>lockOwnerPeerId := Some (peerId q)\<rparr>"
      by (simp add: reassignLock_def)
    ultimately show ?thesis by blast
  qed
qed

lemma on_close_effect:
  "conns (on_close c st) = conns st \<and>
   is_closed (on_close c st) = is_closed st \<and>
   (sessions (on_close c st) = sessions st \<or>
    sessions (on_close c st) = (sessions st)(sessionId (conns st c) := None) \<or>
    (\<exists>p s owner'. peer (conns st c) = Some p \<and> sessions st (sessionId (conns st c)) = Some s \<and>
       sessions (on_close c st)
         = (sessions st)(sessionId (conns st c) \<mapsto>
              s\<lparr>peers := AList.delete (peerId p) (peers s), lockOwnerPeerId := owner'\<rparr>) \<and>
       (owner' = lockOwnerPeerId s \<and> owner' \<noteq> Some (peerId p) \<or> owner' = None \<or>
        (\<exists>q. q \<in> snd ` set (AList.delete (peerId p) (peers s)) \<and> role q = Controller
              \<and> owner' = Some (peerId q)))))"
proof (cases "peer (conns st c)")
  case None
  then show ?thesis by (simp add: on_close_def)
next
  case (Some p)
  show ?thesis
  proof (cases "sessions st (sessionId (conns st c))")
    case None
    with Some show ?thesis by (simp add: on_close_def)
  next
    case session: (Some s)
    let ?s1 = "s\<lparr>peers := AList.delete (peerId p) (peers s)\<rparr>"
    obtain owner' where o: "reassignLock p ?s1 = ?s1\<lparr>lockOwnerPeerId := owner'\<rparr>"
      "owner' = lockOwnerPeerId ?s1 \<and> owner' \<noteq> Some (peerId p) \<or> owner' = None \<or>
       (\<exists>q. q \<in> snd ` set (peers ?s1) \<and> role q = Controller \<and> owner' = Some (peerId q))"
      using reassignLock_effect [of p ?s1] by blast
    have K: "is_closed (on_close c st) = is_closed st"
      using Some session by (simp add: on_close_def Let_def is_closed_def fun_eq_iff)
    have C: "conns (on_close c st) = conns st"
      using Some session by (simp add: on_close_def Let_def)
    have "sessions (on_close c st) = sessions st \<or>
          sessions (on_close c st) = (sessions st)(sessionId (conns st c) := None) \<or>
          sessions (on_close c st) = (sessions st)(sessionId (conns st c) \<mapsto> ?s1\<lparr>lockOwnerPeerId := owner'\<rparr>)"
      using Some session o(1) by (simp add: on_close_def Let_def)
    with Some session o(2) K C show ?thesis
      by (simp del: fun_upd_apply) blast
  qed
qed

subsection \<open>The invariant is kept\<close>

lemma update_fresh: "k \<notin> fst ` set al \<Longrightarrow> AList.update k v al = al @ [(k, v)]"
proof (induction al)
  case Nil
  show ?case by simp
next
  case (Cons a al)
  from Cons.prems have "fst a \<noteq> k" "k \<notin> fst ` set al"
    by force+
  with Cons.IH show ?case by simp
qed

lemma set_delete: "set (AList.delete k al) = {x \<in> set al. fst x \<noteq> k}"
  by (auto simp: AList.delete_eq)

lemma registry_okD:
  assumes "registry_ok S C K"
  shows "S sid = Some s \<Longrightarrow> session_ok s"
    and "peer (C c) = Some p \<Longrightarrow> \<not> K c \<Longrightarrow> S (sessionId (C c)) = Some s
           \<Longrightarrow> (peerId p, p) \<in> set (peers s)"
    and "peer (C c) = Some p \<Longrightarrow> peer (C c') = Some p' \<Longrightarrow> c \<noteq> c' \<Longrightarrow> peerId p \<noteq> peerId p'"
  using assms unfolding registry_ok_def by blast+

lemma registry_okI:
  assumes "\<And>sid s. S sid = Some s \<Longrightarrow> session_ok s"
    and "\<And>c p s. peer (C c) = Some p \<Longrightarrow> \<not> K c \<Longrightarrow> S (sessionId (C c)) = Some s
           \<Longrightarrow> (peerId p, p) \<in> set (peers s)"
    and "\<And>c c' p p'. peer (C c) = Some p \<Longrightarrow> peer (C c') = Some p' \<Longrightarrow> c \<noteq> c'
           \<Longrightarrow> peerId p \<noteq> peerId p'"
  shows "registry_ok S C K"
  using assms unfolding registry_ok_def by blast

lemma registry_ok_remove:
  assumes "registry_ok S C K"
  shows "registry_ok (S(sid := None)) C K"
proof (rule registry_okI)
  fix sid' s
  assume "(S(sid := None)) sid' = Some s"
  then have "S sid' = Some s" by (simp split: if_splits)
  then show "session_ok s" by (rule registry_okD(1) [OF assms])
next
  fix c p s
  assume "peer (C c) = Some p" "\<not> K c" "(S(sid := None)) (sessionId (C c)) = Some s"
  moreover from this(3) have "S (sessionId (C c)) = Some s" by (simp split: if_splits)
  ultimately show "(peerId p, p) \<in> set (peers s)"
    using registry_okD(2) [OF assms] by blast
next
  fix c c' p p'
  assume "peer (C c) = Some p" "peer (C c') = Some p'" "c \<noteq> c'"
  then show "peerId p \<noteq> peerId p'" by (rule registry_okD(3) [OF assms])
qed

lemma registry_ok_update:
  assumes ok: "registry_ok S C K" and s': "session_ok s'"
    and members: "\<And>c p. peer (C c) = Some p \<Longrightarrow> \<not> K c \<Longrightarrow> sessionId (C c) = sid
                    \<Longrightarrow> (peerId p, p) \<in> set (peers s')"
  shows "registry_ok (S(sid \<mapsto> s')) C K"
proof (rule registry_okI)
  fix sid2 s2
  assume a: "(S(sid \<mapsto> s')) sid2 = Some s2"
  show "session_ok s2"
  proof (cases "sid2 = sid")
    case True
    with a s' show ?thesis by simp
  next
    case False
    with a have "S sid2 = Some s2" by simp
    then show ?thesis by (rule registry_okD(1) [OF ok])
  qed
next
  fix c p s2
  assume a: "peer (C c) = Some p" "\<not> K c" "(S(sid \<mapsto> s')) (sessionId (C c)) = Some s2"
  show "(peerId p, p) \<in> set (peers s2)"
  proof (cases "sessionId (C c) = sid")
    case True
    with a members [OF a(1,2)] show ?thesis by simp
  next
    case False
    with a have "S (sessionId (C c)) = Some s2" by simp
    with a show ?thesis using registry_okD(2) [OF ok] by blast
  qed
next
  fix c c' p p'
  assume "peer (C c) = Some p" "peer (C c') = Some p'" "c \<noteq> c'"
  then show "peerId p \<noteq> peerId p'" by (rule registry_okD(3) [OF ok])
qed

lemma registry_ok_owner:
  assumes ok: "registry_ok S C K" and s: "S sid = Some s"
    and o: "\<forall>owner. owner' = Some owner \<longrightarrow> owner \<in> fst ` set (peers s)"
  shows "registry_ok (S(sid \<mapsto> s\<lparr>lockOwnerPeerId := owner'\<rparr>)) C K"
proof (rule registry_ok_update [OF ok])
  from registry_okD(1) [OF ok s] o show "session_ok (s\<lparr>lockOwnerPeerId := owner'\<rparr>)"
    by (simp add: session_ok_def)
next
  fix c p
  assume "peer (C c) = Some p" "\<not> K c" "sessionId (C c) = sid"
  with s show "(peerId p, p) \<in> set (peers (s\<lparr>lockOwnerPeerId := owner'\<rparr>))"
    using registry_okD(2) [OF ok] by simp
qed

lemma registry_ok_closed:
  assumes "registry_ok S C K"
  shows "registry_ok S C (K(c := True))"
proof (rule registry_okI)
  fix c2 p s
  assume "peer (C c2) = Some p" "\<not> (K(c := True)) c2" "S (sessionId (C c2)) = Some s"
  moreover from this(2) have "\<not> K c2" by (simp split: if_splits)
  ultimately show "(peerId p, p) \<in> set (peers s)"
    using registry_okD(2) [OF assms] by blast
qed (use assms in \<open>blast dest: registry_okD(1) registry_okD(3)\<close>)+

lemma registry_ok_leave:
  assumes ok: "registry_ok S C K" and "K c" and p: "peer (C c) = Some p" and s: "S sid = Some s"
    and o: "\<forall>owner. owner' = Some owner \<longrightarrow> owner \<in> fst ` set (AList.delete (peerId p) (peers s))"
  shows "registry_ok (S(sid \<mapsto> s\<lparr>peers := AList.delete (peerId p) (peers s),
                                  lockOwnerPeerId := owner'\<rparr>)) C K"
proof (rule registry_ok_update [OF ok])
  let ?s' = "s\<lparr>peers := AList.delete (peerId p) (peers s), lockOwnerPeerId := owner'\<rparr>"
  have sok: "session_ok s"
    by (rule registry_okD(1) [OF ok s])
  from sok have d: "distinct (map fst (peers s))"
    unfolding session_ok_def by blast
  have 1: "distinct (map fst (AList.delete (peerId p) (peers s)))"
    by (rule AList.distinct_delete [OF d])
  have 2: "\<forall>k q. (k, q) \<in> set (AList.delete (peerId p) (peers s)) \<longrightarrow> peerId q = k \<and> k \<noteq> []"
  proof (intro allI impI)
    fix k q
    assume "(k, q) \<in> set (AList.delete (peerId p) (peers s))"
    then have "(k, q) \<in> set (peers s)"
      unfolding set_delete by blast
    with sok show "peerId q = k \<and> k \<noteq> []"
      unfolding session_ok_def by blast
  qed
  have eqs: "peers ?s' = AList.delete (peerId p) (peers s)" "lockOwnerPeerId ?s' = owner'"
    by simp_all
  from 1 2 o show "session_ok ?s'"
    unfolding session_ok_def eqs by blast
next
  fix c2 p2
  assume a: "peer (C c2) = Some p2" "\<not> K c2" "sessionId (C c2) = sid"
  with \<open>K c\<close> have "c2 \<noteq> c" by auto
  with a(1) p have "peerId p2 \<noteq> peerId p"
    by (rule registry_okD(3) [OF ok])
  moreover from a s have "(peerId p2, p2) \<in> set (peers s)"
    using registry_okD(2) [OF ok] by simp
  ultimately have "(peerId p2, p2) \<in> set (AList.delete (peerId p) (peers s))"
    unfolding set_delete by simp
  then show "(peerId p2, p2)
      \<in> set (peers (s\<lparr>peers := AList.delete (peerId p) (peers s), lockOwnerPeerId := owner'\<rparr>))"
    by simp
qed

lemma registry_ok_join:
  assumes ok: "registry_ok S C K" and s: "S sid = Some s"
    and fresh: "uuid \<noteq> []" "\<forall>c p. peer (C c) = Some p \<longrightarrow> peerId p \<noteq> uuid"
      "\<forall>sid s. S sid = Some s \<longrightarrow> uuid \<notin> fst ` set (peers s)"
    and o: "owner' = lockOwnerPeerId s \<or> owner' = Some uuid"
  shows "registry_ok
           (S(sid \<mapsto> s\<lparr>peers := AList.update uuid \<lparr>peerId = uuid, role = r, ws = c\<rparr> (peers s),
                        lockOwnerPeerId := owner'\<rparr>))
           (C(c := \<lparr>peer = Some \<lparr>peerId = uuid, role = r, ws = c\<rparr>, sessionId = sid\<rparr>)) K"
proof (rule registry_okI)
  let ?P = "\<lparr>peerId = uuid, role = r, ws = c\<rparr>"
  let ?s' = "s\<lparr>peers := AList.update uuid ?P (peers s), lockOwnerPeerId := owner'\<rparr>"
  let ?C = "C(c := \<lparr>peer = Some ?P, sessionId = sid\<rparr>)"
  from fresh(3) s have notin: "uuid \<notin> fst ` set (peers s)" by blast
  then have upd: "AList.update uuid ?P (peers s) = peers s @ [(uuid, ?P)]"
    by (rule update_fresh)
  have sok: "session_ok s"
    by (rule registry_okD(1) [OF ok s])
  have sok': "session_ok ?s'"
    using sok o notin fresh(1) unfolding session_ok_def upd by auto
  {
    fix sid2 s2
    assume a: "(S(sid \<mapsto> ?s')) sid2 = Some s2"
    show "session_ok s2"
    proof (cases "sid2 = sid")
      case True
      with a sok' show ?thesis by simp
    next
      case False
      with a have "S sid2 = Some s2" by simp
      then show ?thesis by (rule registry_okD(1) [OF ok])
    qed
  next
    fix c2 p2 s2
    assume a: "peer (?C c2) = Some p2" "\<not> K c2" "(S(sid \<mapsto> ?s')) (sessionId (?C c2)) = Some s2"
    show "(peerId p2, p2) \<in> set (peers s2)"
    proof (cases "c2 = c")
      case True
      with a have "p2 = ?P" "s2 = ?s'" by simp_all
      then show ?thesis by (simp add: upd)
    next
      case False
      with a have p2: "peer (C c2) = Some p2" by simp
      show ?thesis
      proof (cases "sessionId (C c2) = sid")
        case True
        with a False have "s2 = ?s'" by simp
        moreover from p2 a(2) True s have "(peerId p2, p2) \<in> set (peers s)"
          using registry_okD(2) [OF ok] by simp
        ultimately show ?thesis by (simp add: upd)
      next
        case other: False
        with a False have "S (sessionId (C c2)) = Some s2" by simp
        with p2 a(2) show ?thesis using registry_okD(2) [OF ok] by blast
      qed
    qed
  next
    fix c1 c2 p1 p2
    assume a: "peer (?C c1) = Some p1" "peer (?C c2) = Some p2" "c1 \<noteq> c2"
    show "peerId p1 \<noteq> peerId p2"
    proof (cases "c1 = c")
      case True
      with a have "p1 = ?P" "peer (C c2) = Some p2" by simp_all
      with fresh(2) show ?thesis by auto
    next
      case False
      show ?thesis
      proof (cases "c2 = c")
        case True
        with a False have "p2 = ?P" "peer (C c1) = Some p1" by simp_all
        with fresh(2) show ?thesis by auto
      next
        case c2: False
        with a False have "peer (C c1) = Some p1" "peer (C c2) = Some p2" by simp_all
        with a(3) show ?thesis using registry_okD(3) [OF ok] by blast
      qed
    qed
  }
qed

lemma registry_ok_create:
  assumes ok: "registry_ok S C K" and "\<forall>c. sessionId (C c) \<noteq> sid"
  shows "registry_ok (S(sid \<mapsto> \<lparr>sessId = sid, emulatorId = emu, createdAt = t0,
                                 expiresAt = t1, lockOwnerPeerId = None, peers = []\<rparr>)) C K"
proof (rule registry_ok_update [OF ok])
  show "session_ok \<lparr>sessId = sid, emulatorId = emu, createdAt = t0,
                                 expiresAt = t1, lockOwnerPeerId = None, peers = []\<rparr>"
    by (simp add: session_ok_def)
next
  fix c p
  assume "sessionId (C c) = sid"
  with assms(2) show "(peerId p, p) \<in> set (peers \<lparr>sessId = sid, emulatorId = emu, createdAt = t0,
                                 expiresAt = t1, lockOwnerPeerId = None, peers = []\<rparr>)"
    by blast
qed

lemma registry_ok_connect:
  assumes ok: "registry_ok S C K"
  shows "registry_ok S (C(c := \<lparr>peer = None, sessionId = []\<rparr>)) (K(c := False))"
proof (rule registry_okI)
  fix sid s
  assume "S sid = Some s"
  then show "session_ok s" by (rule registry_okD(1) [OF ok])
next
  fix c2 p s
  assume a: "peer ((C(c := \<lparr>peer = None, sessionId = []\<rparr>)) c2) = Some p" "\<not> (K(c := False)) c2"
    "S (sessionId ((C(c := \<lparr>peer = None, sessionId = []\<rparr>)) c2)) = Some s"
  then have "c2 \<noteq> c" by (auto split: if_splits)
  with a show "(peerId p, p) \<in> set (peers s)"
    using registry_okD(2) [OF ok, of c2 p s] by simp
next
  fix c1 c2 p1 p2
  assume a: "peer ((C(c := \<lparr>peer = None, sessionId = []\<rparr>)) c1) = Some p1"
    "peer ((C(c := \<lparr>peer = None, sessionId = []\<rparr>)) c2) = Some p2" "c1 \<noteq> c2"
  then have "peer (C c1) = Some p1" "peer (C c2) = Some p2"
    by (auto split: if_splits)
  with a(3) show "peerId p1 \<noteq> peerId p2"
    using registry_okD(3) [OF ok] by blast
qed

lemma inv_init: "registry_inv init_state"
  by (simp add: registry_inv_def init_state_def registry_ok_def)

lemma inv_createSession:
  assumes "registry_inv st" and "env_ok st (CreateSession sid emu now expiresInSec)"
  shows "registry_inv (createSession sid emu now expiresInSec st)"
proof -
  have "is_closed (createSession sid emu now expiresInSec st) = is_closed st"
    by (simp add: createSession_def is_closed_def fun_eq_iff)
  with assms show ?thesis
    by (simp add: registry_inv_def createSession_def registry_ok_create)
qed

lemma inv_on_connection:
  assumes "registry_inv st"
  shows "registry_inv (on_connection c st)"
proof -
  have "is_closed (on_connection c st) = (is_closed st)(c := False)"
    by (simp add: on_connection_def is_closed_def fun_eq_iff)
  with assms show ?thesis
    by (simp add: registry_inv_def on_connection_def registry_ok_connect)
qed

lemma inv_route:
  assumes ok: "registry_inv st" and p: "peer (conns st c) = Some p" and live: "\<not> is_closed st c"
  shows "registry_inv (route c p m now st)"
proof -
  let ?st' = "route c p m now st"
  let ?sid = "sessionId (conns st c)"
  from route_effect [of c p m now st]
  have C: "conns ?st' = conns st" and K: "is_closed ?st' = is_closed st"
    and S: "sessions ?st' = sessions st \<or>
      sessions ?st' = (sessions st)(?sid := None) \<or>
      (\<exists>s owner'. sessions st ?sid = Some s \<and>
          sessions ?st' = (sessions st)(?sid \<mapsto> s\<lparr>lockOwnerPeerId := owner'\<rparr>) \<and>
          (owner' = lockOwnerPeerId s \<or> owner' = None \<or>
           owner' = Some (peerId p) \<and> m = MLock Request))"
    by blast+
  from ok have R: "registry_ok (sessions st) (conns st) (is_closed st)"
    by (simp add: registry_inv_def)
  from S consider
      (same) "sessions ?st' = sessions st"
    | (removed) "sessions ?st' = (sessions st)(?sid := None)"
    | (updated) s owner' where "sessions st ?sid = Some s"
        "sessions ?st' = (sessions st)(?sid \<mapsto> s\<lparr>lockOwnerPeerId := owner'\<rparr>)"
        "owner' = lockOwnerPeerId s \<or> owner' = None \<or>
           owner' = Some (peerId p) \<and> m = MLock Request"
    by blast
  then show ?thesis
  proof cases
    case same
    with R C K show ?thesis by (simp add: registry_inv_def)
  next
    case removed
    with registry_ok_remove [OF R] C K show ?thesis by (simp add: registry_inv_def)
  next
    case (updated s owner')
    note s = updated(1) and S' = updated(2) and o = updated(3)
    have "(peerId p, p) \<in> set (peers s)"
      using registry_okD(2) [OF R p live s] .
    then have "peerId p \<in> fst ` set (peers s)"
      by force
    moreover have "session_ok s"
      by (rule registry_okD(1) [OF R s])
    ultimately have "\<forall>owner. owner' = Some owner \<longrightarrow> owner \<in> fst ` set (peers s)"
      using o unfolding session_ok_def by (elim disjE conjE) simp_all
    from registry_ok_owner [OF R s this] show ?thesis
      unfolding registry_inv_def S' C K .
  qed
qed

lemma inv_handshake:
  assumes ok: "registry_inv st" and fresh: "fresh_uuid st uuid"
  shows "registry_inv (handshake verify c m now uuid st)"
proof -
  let ?st' = "handshake verify c m now uuid st"
  from ok have R: "registry_ok (sessions st) (conns st) (is_closed st)"
    by (simp add: registry_inv_def)
  from handshake_effect [of verify c m now uuid st]
  have K: "is_closed ?st' = is_closed st"
    and E: "conns ?st' = conns st \<and>
      (sessions ?st' = sessions st \<or> (\<exists>sid. sessions ?st' = (sessions st)(sid := None)))
    \<or> (\<exists>sid s r owner'. sessions st sid = Some s \<and>
          conns ?st' = (conns st)(c := \<lparr>peer = Some \<lparr>peerId = uuid, role = r, ws = c\<rparr>, sessionId = sid\<rparr>) \<and>
          sessions ?st' = (sessions st)(sid \<mapsto> s\<lparr>peers := AList.update uuid \<lparr>peerId = uuid, role = r, ws = c\<rparr> (peers s),
                                     lockOwnerPeerId := owner'\<rparr>) \<and>
          (owner' = lockOwnerPeerId s \<or> owner' = Some uuid \<and> r = Controller))"
    by blast+
  from E consider
      (same) "conns ?st' = conns st" "sessions ?st' = sessions st"
    | (removed) sid where "conns ?st' = conns st" "sessions ?st' = (sessions st)(sid := None)"
    | (joined) sid s r owner' where "sessions st sid = Some s"
        "conns ?st' = (conns st)(c := \<lparr>peer = Some \<lparr>peerId = uuid, role = r, ws = c\<rparr>, sessionId = sid\<rparr>)"
        "sessions ?st' = (sessions st)(sid \<mapsto> s\<lparr>peers := AList.update uuid \<lparr>peerId = uuid, role = r, ws = c\<rparr> (peers s),
                                     lockOwnerPeerId := owner'\<rparr>)"
        "owner' = lockOwnerPeerId s \<or> owner' = Some uuid \<and> r = Controller"
    by blast
  then show ?thesis
  proof cases
    case same
    with R K show ?thesis by (simp add: registry_inv_def)
  next
    case (removed sid)
    with registry_ok_remove [OF R] K show ?thesis by (simp add: registry_inv_def)
  next
    case (joined sid s r owner')
    note s = joined(1) and C' = joined(2) and S' = joined(3) and o = joined(4)
    from o have o': "owner' = lockOwnerPeerId s \<or> owner' = Some uuid" by blast
    from fresh have f: "uuid \<noteq> []" "\<forall>c p. peer (conns st c) = Some p \<longrightarrow> peerId p \<noteq> uuid"
      "\<forall>sid s. sessions st sid = Some s \<longrightarrow> uuid \<notin> fst ` set (peers s)"
      unfolding fresh_uuid_def by blast+
    from registry_ok_join [OF R s f o'] show ?thesis
      unfolding registry_inv_def S' C' K .
  qed
qed

lemma inv_on_message:
  assumes "registry_inv st" and "env_ok st (MessageEv verify c rawMessage now uuid)"
  shows "registry_inv (on_message verify c rawMessage now uuid st)"
proof (cases rawMessage)
  case InvalidJson
  have "is_closed (st\<lparr>sockets := sendJson c (PError ''Invalid JSON message'') (sockets st)\<rparr>)
          = is_closed st"
    by (simp add: is_closed_def fun_eq_iff)
  with assms(1) InvalidJson show ?thesis
    by (simp add: on_message_def registry_inv_def)
next
  case (Json m)
  from assms(2) have live: "\<not> is_closed st c" and fresh: "fresh_uuid st uuid"
    by (auto simp: is_closed_def)
  show ?thesis
  proof (cases "peer (conns st c)")
    case None
    with Json inv_handshake [OF assms(1) fresh] show ?thesis
      by (simp add: on_message_def)
  next
    case (Some p)
    with Json inv_route [OF assms(1) Some live] show ?thesis
      by (simp add: on_message_def)
  qed
qed

lemma inv_close_event:
  assumes ok: "registry_inv st"
  shows "registry_inv (close_event c st)"
proof -
  let ?st2 = "st\<lparr>sockets := (sockets st)(c := (sockets st c)\<lparr>readyState := CLOSED\<rparr>)\<rparr>"
  let ?st' = "on_close c ?st2"
  let ?sid = "sessionId (conns st c)"
  have K2: "is_closed ?st2 = (is_closed st)(c := True)"
    by (simp add: is_closed_def fun_eq_iff)
  from ok have "registry_ok (sessions st) (conns st) (is_closed st)"
    by (simp add: registry_inv_def)
  then have R: "registry_ok (sessions st) (conns st) (is_closed ?st2)"
    unfolding K2 by (rule registry_ok_closed)
  have shut: "is_closed ?st2 c"
    by (simp add: K2)
  from on_close_effect [of c ?st2]
  have C: "conns ?st' = conns st" and K: "is_closed ?st' = is_closed ?st2"
    and S: "sessions ?st' = sessions st \<or>
      sessions ?st' = (sessions st)(?sid := None) \<or>
      (\<exists>p s owner'. peer (conns st c) = Some p \<and> sessions st ?sid = Some s \<and>
         sessions ?st' = (sessions st)(?sid \<mapsto>
              s\<lparr>peers := AList.delete (peerId p) (peers s), lockOwnerPeerId := owner'\<rparr>) \<and>
         (owner' = lockOwnerPeerId s \<and> owner' \<noteq> Some (peerId p) \<or> owner' = None \<or>
          (\<exists>q. q \<in> snd ` set (AList.delete (peerId p) (peers s)) \<and> role q = Controller
              \<and> owner' = Some (peerId q))))"
    by simp_all
  from S consider
      (same) "sessions ?st' = sessions st"
    | (removed) "sessions ?st' = (sessions st)(?sid := None)"
    | (left) p s owner' where "peer (conns st c) = Some p" "sessions st ?sid = Some s"
        "sessions ?st' = (sessions st)(?sid \<mapsto>
              s\<lparr>peers := AList.delete (peerId p) (peers s), lockOwnerPeerId := owner'\<rparr>)"
        "owner' = lockOwnerPeerId s \<and> owner' \<noteq> Some (peerId p) \<or> owner' = None \<or>
          (\<exists>q. q \<in> snd ` set (AList.delete (peerId p) (peers s)) \<and> role q = Controller
              \<and> owner' = Some (peerId q))"
    by blast
  then have "registry_inv ?st'"
  proof cases
    case same
    with R C K show ?thesis by (simp add: registry_inv_def)
  next
    case removed
    with registry_ok_remove [OF R] C K show ?thesis by (simp add: registry_inv_def)
  next
    case (left p s owner')
    note p = left(1) and s = left(2) and S' = left(3) and o = left(4)
    have sok: "session_ok s"
      by (rule registry_okD(1) [OF R s])
    have "owner \<in> fst ` set (AList.delete (peerId p) (peers s))" if "owner' = Some owner" for owner
      using o
    proof (elim disjE exE conjE)
      assume "owner' = lockOwnerPeerId s" "owner' \<noteq> Some (peerId p)"
      with that sok have "owner \<in> fst ` set (peers s)" "owner \<noteq> peerId p"
        unfolding session_ok_def by auto
      then show ?thesis
        unfolding set_delete by force
    next
      assume "owner' = None"
      with that show ?thesis by simp
    next
      fix q
      assume q: "q \<in> snd ` set (AList.delete (peerId p) (peers s))" "owner' = Some (peerId q)"
      then obtain k where k: "(k, q) \<in> set (AList.delete (peerId p) (peers s))"
        by force
      then have "(k, q) \<in> set (peers s)"
        unfolding set_delete by blast
      with sok have "peerId q = k"
        unfolding session_ok_def by blast
      with k q that show ?thesis by force
    qed
    then have "\<forall>owner. owner' = Some owner \<longrightarrow> owner \<in> fst ` set (AList.delete (peerId p) (peers s))"
      by blast
    from registry_ok_leave [OF R shut p s this] show ?thesis
      unfolding registry_inv_def S' C K .
  qed
  then show ?thesis
    by (simp add: close_event_def)
qed

lemma inv_step:
  assumes "registry_inv st" and "env_ok st ev"
  shows "registry_inv (step ev st)"
  using assms
  by (cases ev) (simp_all add: inv_createSession inv_on_connection inv_on_message inv_close_event
                           del: env_ok.simps)

lemma reach_inv: "reach allowed st \<Longrightarrow> registry_inv st"
  by (induction rule: reach.induct) (simp_all add: inv_init inv_step)

lemma reach_run:
  "reach allowed st \<Longrightarrow> trace_ok allowed st evs \<Longrightarrow> reach allowed (run evs st)"
proof (induction evs arbitrary: st)
  case Nil
  then show ?case by (simp add: run_def)
next
  case (Cons ev evs)
  from Cons.prems have "reach allowed (step ev st)"
    by (auto intro: reach_step)
  with Cons.IH [of "step ev st"] Cons.prems show ?case
    by (simp add: run_def)
qed

lemma trace_A_ok: "trace_ok allowed init_state trace_A \<longleftrightarrow> allowed init_state (CreateSession ''S1'' ''emulator-5554'' 0 3600)
    \<and> allowed (createSession ''S1'' ''emulator-5554'' 0 3600 init_state) (Connection 10)
    \<and> allowed (on_connection 10 (createSession ''S1'' ''emulator-5554'' 0 3600 init_state))
          (MessageEv verifyS1 10 (Json (MHello ''agent-token'')) 10 ''A'')"
  by (simp add: trace_A_def fresh_uuid_def createSession_def on_connection_def init_state_def)

lemma reachable_state_A: "reachable state_A"
  unfolding reachable_def state_A_def
  by (rule reach_run [OF reach_init]) (simp add: trace_A_ok any_event_def)

lemma ona_remove: "owner_not_agent S \<Longrightarrow> owner_not_agent (S(sid := None))"
  unfolding owner_not_agent_def by (auto split: if_splits)

lemma ona_update:
  assumes "owner_not_agent S"
    and "\<And>owner. lockOwnerPeerId s' = Some owner
           \<Longrightarrow> \<exists>q. (owner, q) \<in> set (peers s') \<and> role q \<noteq> Agent"
  shows "owner_not_agent (S(sid \<mapsto> s'))"
  unfolding owner_not_agent_def
proof (intro allI impI)
  fix sid2 s2 owner
  assume a: "(S(sid \<mapsto> s')) sid2 = Some s2 \<and> lockOwnerPeerId s2 = Some owner"
  show "\<exists>q. (owner, q) \<in> set (peers s2) \<and> role q \<noteq> Agent"
  proof (cases "sid2 = sid")
    case True
    with a have "s2 = s'" by simp
    with a assms(2) show ?thesis by blast
  next
    case False
    with a have "S sid2 = Some s2" by simp
    with a assms(1) show ?thesis
      unfolding owner_not_agent_def by blast
  qed
qed

lemma onaD:
  "owner_not_agent S \<Longrightarrow> S sid = Some s \<Longrightarrow> lockOwnerPeerId s = Some owner
     \<Longrightarrow> \<exists>q. (owner, q) \<in> set (peers s) \<and> role q \<noteq> Agent"
  unfolding owner_not_agent_def by blast

lemma ona_route:
  assumes ok: "registry_inv st" and ona: "owner_not_agent (sessions st)"
    and p: "peer (conns st c) = Some p" and live: "\<not> is_closed st c"
    and allowed: "m = MLock Request \<longrightarrow> role p \<noteq> Agent"
  shows "owner_not_agent (sessions (route c p m now st))"
proof -
  let ?st' = "route c p m now st"
  let ?sid = "sessionId (conns st c)"
  from ok have R: "registry_ok (sessions st) (conns st) (is_closed st)"
    by (simp add: registry_inv_def)
  from route_effect [of c p m now st] consider
      (same) "sessions ?st' = sessions st"
    | (removed) "sessions ?st' = (sessions st)(?sid := None)"
    | (updated) s owner' where "sessions st ?sid = Some s"
        "sessions ?st' = (sessions st)(?sid \<mapsto> s\<lparr>lockOwnerPeerId := owner'\<rparr>)"
        "owner' = lockOwnerPeerId s \<or> owner' = None \<or>
           owner' = Some (peerId p) \<and> m = MLock Request"
    by blast
  then show ?thesis
  proof cases
    case same
    with ona show ?thesis by simp
  next
    case removed
    with ona_remove [OF ona] show ?thesis by simp
  next
    case (updated s owner')
    have "\<exists>q. (owner, q) \<in> set (peers s) \<and> role q \<noteq> Agent" if "owner' = Some owner" for owner
      using updated(3)
    proof (elim disjE conjE)
      assume "owner' = lockOwnerPeerId s"
      with that onaD [OF ona updated(1)] show ?thesis by simp
    next
      assume "owner' = None"
      with that show ?thesis by simp
    next
      assume "owner' = Some (peerId p)" "m = MLock Request"
      with that allowed have "owner = peerId p" "role p \<noteq> Agent" by simp_all
      with registry_okD(2) [OF R p live updated(1)] show ?thesis by blast
    qed
    then have "owner_not_agent ((sessions st)(?sid \<mapsto> s\<lparr>lockOwnerPeerId := owner'\<rparr>))"
      by (intro ona_update [OF ona]) simp
    with updated(2) show ?thesis by simp
  qed
qed

lemma ona_handshake:
  assumes ok: "registry_inv st" and ona: "owner_not_agent (sessions st)" and fresh: "fresh_uuid st uuid"
  shows "owner_not_agent (sessions (handshake verify c m now uuid st))"
proof -
  let ?st' = "handshake verify c m now uuid st"
  from handshake_effect [of verify c m now uuid st] consider
      (same) "sessions ?st' = sessions st"
    | (removed) sid where "sessions ?st' = (sessions st)(sid := None)"
    | (joined) sid s r owner' where "sessions st sid = Some s"
        "sessions ?st' = (sessions st)(sid \<mapsto> s\<lparr>peers := AList.update uuid \<lparr>peerId = uuid, role = r, ws = c\<rparr> (peers s),
                                     lockOwnerPeerId := owner'\<rparr>)"
        "owner' = lockOwnerPeerId s \<or> owner' = Some uuid \<and> r = Controller"
    by blast
  then show ?thesis
  proof cases
    case same
    with ona show ?thesis by simp
  next
    case (removed sid)
    with ona_remove [OF ona] show ?thesis by simp
  next
    case (joined sid s r owner')
    let ?P = "\<lparr>peerId = uuid, role = r, ws = c\<rparr>"
    from fresh joined(1) have "uuid \<notin> fst ` set (peers s)"
      unfolding fresh_uuid_def by blast
    then have upd: "AList.update uuid ?P (peers s) = peers s @ [(uuid, ?P)]"
      by (rule update_fresh)
    have "\<exists>q. (owner, q) \<in> set (peers s @ [(uuid, ?P)]) \<and> role q \<noteq> Agent"
      if "owner' = Some owner" for owner
      using joined(3)
    proof (elim disjE conjE)
      assume "owner' = lockOwnerPeerId s"
      with that onaD [OF ona joined(1)] show ?thesis by auto
    next
      assume "owner' = Some uuid" "r = Controller"
      with that have "owner = uuid" "role ?P \<noteq> Agent" by simp_all
      then show ?thesis by auto
    qed
    then have "owner_not_agent ((sessions st)(sid \<mapsto>
        s\<lparr>peers := peers s @ [(uuid, ?P)], lockOwnerPeerId := owner'\<rparr>))"
      by (intro ona_update [OF ona]) simp
    with joined(2) show ?thesis by (simp add: upd)
  qed
qed

lemma ona_on_close:
  assumes R: "registry_ok (sessions st) (conns st) K" and ona: "owner_not_agent (sessions st)"
  shows "owner_not_agent (sessions (on_close c st))"
proof -
  let ?st' = "on_close c st"
  let ?sid = "sessionId (conns st c)"
  from on_close_effect [of c st] consider
      (same) "sessions ?st' = sessions st"
    | (removed) "sessions ?st' = (sessions st)(?sid := None)"
    | (left) p s owner' where "peer (conns st c) = Some p" "sessions st ?sid = Some s"
        "sessions ?st' = (sessions st)(?sid \<mapsto>
              s\<lparr>peers := AList.delete (peerId p) (peers s), lockOwnerPeerId := owner'\<rparr>)"
        "owner' = lockOwnerPeerId s \<and> owner' \<noteq> Some (peerId p) \<or> owner' = None \<or>
          (\<exists>q. q \<in> snd ` set (AList.delete (peerId p) (peers s)) \<and> role q = Controller
              \<and> owner' = Some (peerId q))"
    by blast
  then show ?thesis
  proof cases
    case same
    with ona show ?thesis by simp
  next
    case removed
    with ona_remove [OF ona] show ?thesis by simp
  next
    case (left p s owner')
    have sok: "session_ok s"
      by (rule registry_okD(1) [OF R left(2)])
    have "\<exists>q. (owner, q) \<in> set (AList.delete (peerId p) (peers s)) \<and> role q \<noteq> Agent"
      if "owner' = Some owner" for owner
      using left(4)
    proof (elim disjE exE conjE)
      assume o: "owner' = lockOwnerPeerId s" "owner' \<noteq> Some (peerId p)"
      with that onaD [OF ona left(2)] obtain q where "(owner, q) \<in> set (peers s)" "role q \<noteq> Agent"
        by auto
      moreover from o that have "owner \<noteq> peerId p" by auto
      ultimately show ?thesis
        unfolding set_delete by force
    next
      assume "owner' = None"
      with that show ?thesis by simp
    next
      fix q
      assume q: "q \<in> snd ` set (AList.delete (peerId p) (peers s))" "role q = Controller"
        "owner' = Some (peerId q)"
      then obtain k where k: "(k, q) \<in> set (AList.delete (peerId p) (peers s))"
        by force
      then have "(k, q) \<in> set (peers s)"
        unfolding set_delete by blast
      with sok have "peerId q = k"
        unfolding session_ok_def by blast
      with k q that show ?thesis by force
    qed
    then have "owner_not_agent ((sessions st)(?sid \<mapsto>
              s\<lparr>peers := AList.delete (peerId p) (peers s), lockOwnerPeerId := owner'\<rparr>))"
      by (intro ona_update [OF ona]) simp
    with left(3) show ?thesis by simp
  qed
qed

lemma ona_step:
  assumes ok: "registry_inv st" and ona: "owner_not_agent (sessions st)"
    and env: "env_ok st ev" and allowed: "no_agent_lock_request st ev"
  shows "owner_not_agent (sessions (step ev st))"
proof (cases ev)
  case (CreateSession sid emu now expiresInSec)
  have "owner_not_agent ((sessions st)(sid \<mapsto>
          \<lparr>sessId = sid, emulatorId = emu, createdAt = now,
           expiresAt = now + expiresInSec * 1000, lockOwnerPeerId = None, peers = []\<rparr>))"
    by (intro ona_update [OF ona]) simp
  with CreateSession show ?thesis by (simp add: createSession_def)
next
  case (Connection c)
  with ona show ?thesis by (simp add: on_connection_def)
next
  case (MessageEv verify c rawMessage now uuid)
  from env MessageEv have live: "\<not> is_closed st c" and fresh: "fresh_uuid st uuid"
    by (auto simp: is_closed_def)
  show ?thesis
  proof (cases rawMessage)
    case InvalidJson
    with MessageEv ona show ?thesis by (simp add: on_message_def)
  next
    case (Json m)
    show ?thesis
    proof (cases "peer (conns st c)")
      case None
      with MessageEv Json ona_handshake [OF ok ona fresh] show ?thesis
        by (simp add: on_message_def)
    next
      case (Some p)
      from allowed MessageEv Json Some have "m = MLock Request \<longrightarrow> role p \<noteq> Agent"
        by auto
      from ona_route [OF ok ona Some live this] MessageEv Json Some show ?thesis
        by (simp add: on_message_def)
    qed
  qed
next
  case (CloseEv c)
  let ?st2 = "st\<lparr>sockets := (sockets st)(c := (sockets st c)\<lparr>readyState := CLOSED\<rparr>)\<rparr>"
  from ok have "registry_ok (sessions ?st2) (conns ?st2) (is_closed st)"
    by (simp add: registry_inv_def)
  moreover from ona have "owner_not_agent (sessions ?st2)" by simp
  ultimately have "owner_not_agent (sessions (on_close c ?st2))"
    by (rule ona_on_close)
  with CloseEv show ?thesis by (simp add: close_event_def)
qed

lemma reach_owner_not_agent: "reach no_agent_lock_request st \<Longrightarrow> owner_not_agent (sessions st)"
proof (induction rule: reach.induct)
  case reach_init
  show ?case by (simp add: owner_not_agent_def init_state_def)
next
  case (reach_step st ev)
  from reach_step.hyps(1) have "registry_inv st" by (rule reach_inv)
  from ona_step [OF this reach_step.IH reach_step.hyps(2,3)] show ?case .
qed

lemma reach_mono:
  assumes "reach allowed st" and "\<And>st ev. allowed st ev \<Longrightarrow> allowed' st ev"
  shows "reach allowed' st"
  using assms(1)
  by (induction rule: reach.induct) (auto intro: reach.intros assms(2))

lemma reach_reachable: "reach allowed st \<Longrightarrow> reachable st"
  unfolding reachable_def by (erule reach_mono) (simp add: any_event_def)

lemma trace_AB_ok: "trace_ok no_agent_lock_request init_state trace_AB"
  by (simp add: trace_AB_def trace_A_def fresh_uuid_def server_defs)

lemma reach_state_AB: "reach no_agent_lock_request state_AB"
  unfolding state_AB_def by (rule reach_run [OF reach_init trace_AB_ok])

lemma reachable_state_A_locked: "reachable state_A_locked"
proof -
  have "env_ok state_A (MessageEv verifyS1 10 (Json (MLock Request)) 40 ''u'')"
    by (simp add: state_A_eq fresh_uuid_def session_A_def)
  with reachable_state_A have "reach any_event (step (MessageEv verifyS1 10 (Json (MLock Request)) 40 ''u'') state_A)"
    unfolding reachable_def by (intro reach_step) (simp_all add: any_event_def)
  then show ?thesis
    by (simp add: reachable_def state_A_locked_def)
qed

text \<open>In a reachable state no lock owner is the empty string, so \<^verbatim>\<open>!session.lockOwnerPeerId\<close>
  is true exactly when the owner is \<^verbatim>\<open>null\<close>.\<close>

lemma reachable_owner_nonempty:
  assumes "reachable st" and "sessions st sid = Some s"
  shows "lockOwnerPeerId s \<noteq> Some []"
proof
  assume "lockOwnerPeerId s = Some []"
  moreover from assms(1) have "registry_inv st"
    unfolding reachable_def by (rule reach_inv)
  with assms(2) have "session_ok s"
    unfolding registry_inv_def by (blast dest: registry_okD(1))
  ultimately show False
    unfolding session_ok_def by force
qed

subsection \<open>The lock owner is a peer of its session\<close>

text \<open>
  Claim C1. In every state of the registry reached from the start of the process by any
  sequence of session creations, connections, messages (handshakes, lock requests and
  releases among them, at any times and with any verification results) and closes: in
  every session at most one peer holds the lock, and a lock owner that is set is the
  key of an entry of the session's \<open>peers\<close>, whose peer has that id.
\<close>

theorem lock_owner_is_a_peer:
  assumes "reachable st" and "sessions st sid = Some s"
  shows "card {k \<in> fst ` set (peers s). lockOwnerPeerId s = Some k} \<le> 1 \<and>
         (\<forall>owner. lockOwnerPeerId s = Some owner \<longrightarrow>
            (\<exists>q. map_of (peers s) owner = Some q \<and> peerId q = owner))"
proof -
  from assms(1) have "registry_inv st"
    unfolding reachable_def by (rule reach_inv)
  with assms(2) have sok: "session_ok s"
    unfolding registry_inv_def by (blast dest: registry_okD(1))
  have "{k \<in> fst ` set (peers s). lockOwnerPeerId s = Some k} \<subseteq> set_option (lockOwnerPeerId s)"
    by auto
  moreover have "finite (set_option (lockOwnerPeerId s))"
    and "card (set_option (lockOwnerPeerId s)) \<le> 1"
    by (cases "lockOwnerPeerId s"; simp)+
  ultimately have "card {k \<in> fst ` set (peers s). lockOwnerPeerId s = Some k} \<le> 1"
    by (meson card_mono le_trans)
  moreover have "\<exists>q. map_of (peers s) owner = Some q \<and> peerId q = owner"
    if "lockOwnerPeerId s = Some owner" for owner
  proof -
    from sok that obtain q where q: "(owner, q) \<in> set (peers s)"
      unfolding session_ok_def by force
    with sok have "map_of (peers s) owner = Some q" "peerId q = owner"
      unfolding session_ok_def by (blast intro: map_of_is_SomeI)+
    then show ?thesis by blast
  qed
  ultimately show ?thesis by blast
qed

theorem lock_owner_is_a_peer_witness:
  "reachable state_AB \<and> sessions state_AB ''S1'' = Some session_AB \<and>
   lockOwnerPeerId session_AB = Some ''B1'' \<and>
   card {k \<in> fst ` set (peers session_AB). lockOwnerPeerId session_AB = Some k} \<le> 1 \<and>
   (\<exists>q. map_of (peers session_AB) ''B1'' = Some q \<and> peerId q = ''B1'')"
proof -
  have r: "reachable state_AB"
    by (rule reach_reachable [OF reach_state_AB])
  have s: "sessions state_AB ''S1'' = Some session_AB"
    by (simp add: state_AB_facts)
  have o: "lockOwnerPeerId session_AB = Some ''B1''"
    by (simp add: session_AB_def)
  from lock_owner_is_a_peer [OF r s] r s o show ?thesis
    by blast
qed

subsection \<open>Who can become the lock owner\<close>

text \<open>
  Neither the handshake nor a disconnect gives the lock to an \<open>Agent\<close> peer, and a release
  gives it to nobody: in every state reached by session creations, connections,
  messages and closes among which no \<open>Agent\<close> peer sends a lock request, the lock owner
  of every session is a peer of that session whose role is not \<open>Agent\<close>. The request
  branch of the \<^verbatim>\<open>lock\<close> handler is the only way for an \<open>Agent\<close> peer to get the lock.
\<close>

lemma agent_owner_only_by_lock_request:
  assumes "reach no_agent_lock_request st" and "sessions st sid = Some s"
    and "lockOwnerPeerId s = Some owner"
  shows "\<exists>q. map_of (peers s) owner = Some q \<and> role q \<noteq> Agent"
proof -
  from assms(1) have "registry_inv st" by (rule reach_inv)
  with assms(2) have sok: "session_ok s"
    unfolding registry_inv_def by (blast dest: registry_okD(1))
  from assms(1) have "owner_not_agent (sessions st)"
    by (rule reach_owner_not_agent)
  from onaD [OF this assms(2,3)] obtain q where "(owner, q) \<in> set (peers s)" "role q \<noteq> Agent"
    by blast
  moreover from this(1) sok have "map_of (peers s) owner = Some q"
    unfolding session_ok_def by (blast intro: map_of_is_SomeI)
  ultimately show ?thesis by blast
qed

lemma state_A_locked_eq: "state_A_locked =
  \<lparr>sessions = [''S1'' \<mapsto> session_A\<lparr>lockOwnerPeerId := Some ''A''\<rparr>],
   sockets = (\<lambda>c. \<lparr>readyState = CONNECTING, sent = [], closeCall = None, bufferedAmount = 0\<rparr>)
     (10 := \<lparr>readyState = OPEN,
       sent = [PHelloAck ''A'' Agent ''S1'' ''emulator-5554'',
        PSessionState ''S1'' None [(''A'', Agent)],
        PLockResult True (Some ''A''),
        PSessionState ''S1'' (Some ''A'') [(''A'', Agent)]],
       closeCall = None, bufferedAmount = 0\<rparr>),
   conns = (\<lambda>c. \<lparr>peer = None, sessionId = []\<rparr>)
     (10 := \<lparr>peer = Some \<lparr>peerId = ''A'', role = Agent, ws = 10\<rparr>, sessionId = ''S1''\<rparr>)\<rparr>"
  by (simp add: state_A_locked_def state_A_eq session_A_def server_defs)

lemma state_A_locked_joined_eq: "state_A_locked_joined =
  \<lparr>sessions = [''S1'' \<mapsto>
     \<lparr>sessId = ''S1'', emulatorId = ''emulator-5554'', createdAt = 0,
      expiresAt = 3600000, lockOwnerPeerId = Some ''A'',
      peers = [(''A'', \<lparr>peerId = ''A'', role = Agent, ws = 10\<rparr>),
               (''B1'', \<lparr>peerId = ''B1'', role = Controller, ws = 11\<rparr>)]\<rparr>],
   sockets = (\<lambda>c. \<lparr>readyState = CONNECTING, sent = [], closeCall = None, bufferedAmount = 0\<rparr>)
     (10 := \<lparr>readyState = OPEN,
       sent = [PHelloAck ''A'' Agent ''S1'' ''emulator-5554'',
        PSessionState ''S1'' None [(''A'', Agent)],
        PLockResult True (Some ''A''),
        PSessionState ''S1'' (Some ''A'') [(''A'', Agent)],
        PSessionState ''S1'' (Some ''A'') [(''A'', Agent), (''B1'', Controller)]],
       closeCall = None, bufferedAmount = 0\<rparr>,
      11 := \<lparr>readyState = OPEN,
       sent = [PHelloAck ''B1'' Controller ''S1'' ''emulator-5554'',
        PSessionState ''S1'' (Some ''A'') [(''A'', Agent), (''B1'', Controller)]],
       closeCall = None, bufferedAmount = 0\<rparr>),
   conns = (\<lambda>c. \<lparr>peer = None, sessionId = []\<rparr>)
     (10 := \<lparr>peer = Some \<lparr>peerId = ''A'', role = Agent, ws = 10\<rparr>, sessionId = ''S1''\<rparr>,
      11 := \<lparr>peer = Some \<lparr>peerId = ''B1'', role = Controller, ws = 11\<rparr>, sessionId = ''S1''\<rparr>)\<rparr>"
  by (simp add: state_A_locked_joined_def state_A_locked_eq session_A_def step.simps
        server_defs fun_upd_twist)

lemma reachable_state_A_locked_joined: "reachable state_A_locked_joined"
proof -
  let ?e1 = "Connection 11"
  let ?e2 = "MessageEv verifyS1 11 (Json (MHello ''controller-token'')) 45 ''B1''"
  have "trace_ok any_event state_A_locked [?e1, ?e2]"
    by (simp add: state_A_locked_eq session_A_def fresh_uuid_def any_event_def server_defs)
  from reach_run [OF reachable_state_A_locked [unfolded reachable_def] this]
  show ?thesis
    by (simp add: reachable_def state_A_locked_joined_def)
qed

text \<open>
  Claim C2 at a failing input. In \<open>state_A\<close> the agent \<open>A\<close> is alone in session \<open>S1\<close>, which
  nobody has locked, and sends \<^verbatim>\<open>{t: "lock", action: "request"}\<close>. The request branch
  does not test the sender's role: the reply is \<^verbatim>\<open>lock_result\<close> with \<^verbatim>\<open>granted: true\<close>,
  and in the state reached, \<open>state_A_locked\<close>, the lock owner of \<open>S1\<close> is \<open>A\<close>, a peer of
  role \<open>Agent\<close>. The controller \<open>B1\<close> that joins next is not given the lock by the
  handshake, and its \<^verbatim>\<open>control\<close> envelope is answered \<^verbatim>\<open>Not lock owner\<close> and relayed to
  nobody.
\<close>

theorem agent_lock_request_granted:
  "reachable state_A \<and>
   sessions state_A ''S1'' = Some session_A \<and>
   lockOwnerPeerId session_A = None \<and>
   peer (conns state_A 10) = Some \<lparr>peerId = ''A'', role = Agent, ws = 10\<rparr> \<and>
   state_A_locked = step (MessageEv verifyS1 10 (Json (MLock Request)) 40 ''u'') state_A \<and>
   reachable state_A_locked \<and>
   sessions state_A_locked ''S1'' = Some (session_A\<lparr>lockOwnerPeerId := Some ''A''\<rparr>) \<and>
   map_of (peers session_A) ''A'' = Some \<lparr>peerId = ''A'', role = Agent, ws = 10\<rparr> \<and>
   sent (sockets state_A_locked 10)
     = sent (sockets state_A 10)
         @ [PLockResult True (Some ''A''), PSessionState ''S1'' (Some ''A'') [(''A'', Agent)]] \<and>
   reachable state_A_locked_joined \<and>
   peer (conns state_A_locked_joined 11) = Some \<lparr>peerId = ''B1'', role = Controller, ws = 11\<rparr> \<and>
   map_option lockOwnerPeerId (sessions state_A_locked_joined ''S1'') = Some (Some ''A'') \<and>
   sent (sockets state_A_locked_control 11)
     = sent (sockets state_A_locked_joined 11) @ [PError ''Not lock owner''] \<and>
   sent (sockets state_A_locked_control 10) = sent (sockets state_A_locked_joined 10)"
proof -
  have "state_A_locked = step (MessageEv verifyS1 10 (Json (MLock Request)) 40 ''u'') state_A"
    by (simp add: state_A_locked_def)
  moreover have "sessions state_A ''S1'' = Some session_A"
    and "lockOwnerPeerId session_A = None"
    and "peer (conns state_A 10) = Some \<lparr>peerId = ''A'', role = Agent, ws = 10\<rparr>"
    and "map_of (peers session_A) ''A'' = Some \<lparr>peerId = ''A'', role = Agent, ws = 10\<rparr>"
    by (simp_all add: state_A_eq session_A_def)
  moreover have "sessions state_A_locked ''S1'' = Some (session_A\<lparr>lockOwnerPeerId := Some ''A''\<rparr>)"
    and "sent (sockets state_A_locked 10)
     = sent (sockets state_A 10)
         @ [PLockResult True (Some ''A''), PSessionState ''S1'' (Some ''A'') [(''A'', Agent)]]"
    by (simp_all add: state_A_locked_eq state_A_eq)
  moreover have "peer (conns state_A_locked_joined 11)
        = Some \<lparr>peerId = ''B1'', role = Controller, ws = 11\<rparr>"
    and "map_option lockOwnerPeerId (sessions state_A_locked_joined ''S1'') = Some (Some ''A'')"
    by (simp_all add: state_A_locked_joined_eq)
  moreover have "sent (sockets state_A_locked_control 11)
     = sent (sockets state_A_locked_joined 11) @ [PError ''Not lock owner'']"
    and "sent (sockets state_A_locked_control 10) = sent (sockets state_A_locked_joined 10)"
    by (simp_all add: state_A_locked_control_def state_A_locked_joined_eq server_defs)
  ultimately show ?thesis
    using reachable_state_A reachable_state_A_locked reachable_state_A_locked_joined
    by blast
qed

section \<open>Properties of the agent\<close>

subsection \<open>The command queue drains\<close>

declare drain.simps [simp del]

lemma drain_idle: "inFlight ex = None \<Longrightarrow> drain fails ex = ex"
  by (subst drain.simps) simp

lemma drain_step: "inFlight ex = Some cmd \<Longrightarrow> drain fails ex = drain fails (settle (fails cmd) ex)"
  by (subst drain.simps) simp

lemma drain_from_empty_queue:
  assumes "inFlight ex = Some cmd" and "commandQueue ex = []"
  shows "drain fails ex =
           ex\<lparr>commandQueue := [], pendingMove := None, workerRunning := False, inFlight := None,
              started := started ex @ pending_list ex,
              errorLog := errorLog ex @ filter fails (cmd # pending_list ex)\<rparr>"
proof (cases "pendingMove ex")
  case None
  with assms show ?thesis
    by (simp add: drain_step drain_idle settle_def workerLoop_def pending_list_def)
next
  case (Some m)
  with assms show ?thesis
    by (simp add: drain_step drain_idle settle_def workerLoop_def pending_list_def
          startCall_def clearPending_def)
qed

lemma drain_all:
  assumes "inFlight ex = Some cmd"
    and "pendingMove ex \<notin> Some ` set (commandQueue ex)"
  shows "drain fails ex =
           ex\<lparr>commandQueue := [], pendingMove := None, workerRunning := False, inFlight := None,
              started := started ex @ commandQueue ex @ pending_list ex,
              errorLog := errorLog ex @ filter fails (cmd # commandQueue ex @ pending_list ex)\<rparr>"
  using assms
proof (induction "commandQueue ex" arbitrary: ex cmd)
  case Nil
  then show ?case
    using drain_from_empty_queue [of ex cmd fails] by simp
next
  case (Cons a rest)
  let ?ex1 = "(if fails cmd then ex\<lparr>errorLog := errorLog ex @ [cmd]\<rparr> else ex)\<lparr>inFlight := None\<rparr>"
  let ?ex2 = "?ex1\<lparr>commandQueue := rest, inFlight := Some a, started := started ex @ [a]\<rparr>"
  from Cons.hyps(2) have q: "commandQueue ex = a # rest"
    by simp
  with Cons.prems(2) have pm: "pendingMove ex \<noteq> Some a"
    by auto
  have step: "settle (fails cmd) ex = ?ex2"
    using Cons.prems(1) q pm
    by (simp add: settle_def workerLoop_def startCall_def clearPending_def)
  have "drain fails ?ex2 =
          ?ex2\<lparr>commandQueue := [], pendingMove := None, workerRunning := False, inFlight := None,
              started := started ?ex2 @ commandQueue ?ex2 @ pending_list ?ex2,
              errorLog := errorLog ?ex2 @ filter fails (a # commandQueue ?ex2 @ pending_list ?ex2)\<rparr>"
    using Cons.prems(2) q by (intro Cons.hyps(1)) auto
  then show ?case
    using Cons.prems(1) q by (simp add: drain_step step pending_list_def)
qed

text \<open>
  Claim C9. The worker awaits a device call \<open>cmd\<close> and the call fails. Then the failure
  is logged, and the worker goes on exactly as after a success. Left to drain, whatever
  calls fail later, it starts every entry of the queue in order and then the pending
  move, each once, and stops with nothing queued; the log holds exactly the calls that
  failed. (The closure in the pending slot is not also in the queue: each call of
  \<^verbatim>\<open>enqueue\<close> gets a new closure and stores it in one of the two.)
\<close>

theorem failed_call_does_not_stop_queue:
  assumes "inFlight ex = Some cmd"
    and "pendingMove ex \<notin> Some ` set (commandQueue ex)"
    and "fails cmd"
  shows "errorLog (settle True ex) = errorLog ex @ [cmd] \<and>
         settle True ex = (settle False ex)\<lparr>errorLog := errorLog ex @ [cmd]\<rparr> \<and>
         started (drain fails ex) = started ex @ commandQueue ex @ pending_list ex \<and>
         commandQueue (drain fails ex) = [] \<and>
         pendingMove (drain fails ex) = None \<and>
         inFlight (drain fails ex) = None \<and>
         workerRunning (drain fails ex) = False \<and>
         errorLog (drain fails ex)
           = errorLog ex @ cmd # filter fails (commandQueue ex @ pending_list ex)"
proof -
  have "settle True ex = (settle False ex)\<lparr>errorLog := errorLog ex @ [cmd]\<rparr>"
    using assms(1)
    by (simp add: settle_def workerLoop_def startCall_def clearPending_def
             split: list.splits option.splits)
  moreover have "errorLog (settle False ex) = errorLog ex"
    using assms(1)
    by (simp add: settle_def workerLoop_def startCall_def clearPending_def
             split: list.splits option.splits)
  ultimately show ?thesis
    using assms by (simp add: drain_all)
qed

theorem failed_call_does_not_stop_queue_witness:
  "inFlight executor_busy = Some \<lparr>ref = 1, call = Touch 10 10 180\<rparr> \<and>
   pendingMove executor_busy \<notin> Some ` set (commandQueue executor_busy) \<and>
   fails_ref1 \<lparr>ref = 1, call = Touch 10 10 180\<rparr> \<and>
   errorLog (settle True executor_busy) = [\<lparr>ref = 1, call = Touch 10 10 180\<rparr>] \<and>
   started (drain fails_ref1 executor_busy)
     = [\<lparr>ref = 1, call = Touch 10 10 180\<rparr>, \<lparr>ref = 2, call = Touch 10 10 0\<rparr>,
        \<lparr>ref = 3, call = Touch 20 20 180\<rparr>, \<lparr>ref = 4, call = Touch 25 20 180\<rparr>] \<and>
   commandQueue (drain fails_ref1 executor_busy) = [] \<and>
   pendingMove (drain fails_ref1 executor_busy) = None \<and>
   errorLog (drain fails_ref1 executor_busy) = [\<lparr>ref = 1, call = Touch 10 10 180\<rparr>]"
proof -
  have h1: "inFlight executor_busy = Some \<lparr>ref = 1, call = Touch 10 10 180\<rparr>"
    and h2: "pendingMove executor_busy \<notin> Some ` set (commandQueue executor_busy)"
    and h3: "fails_ref1 \<lparr>ref = 1, call = Touch 10 10 180\<rparr>"
    by (simp_all add: executor_busy_def fails_ref1_def)
  from failed_call_does_not_stop_queue
         [where ex = executor_busy and fails = fails_ref1, OF h1 h2 h3] h1 h2 h3
  show ?thesis
    by (simp add: executor_busy_def fails_ref1_def pending_list_def)
qed

subsection \<open>Pointer moves\<close>



subsection \<open>What the handler passes on is what the queue is given\<close>








subsection \<open>The throttle\<close>








end
